theory Spec2Isabelle
  imports Complex_Main "HOL-Library.Multiset" "HOL-Library.Product_Lexorder"
begin

section \<open>JavaScript values\<close>

text \<open>
  The values that flow through the aggregation code of \<^verbatim>\<open>script.js\<close>: a number, the
  number \<^verbatim>\<open>NaN\<close> (what \<^verbatim>\<open>+d.max_temperature\<close> gives for a malformed CSV cell), or
  \<^verbatim>\<open>undefined\<close> (what \<^verbatim>\<open>d3.max\<close> and \<^verbatim>\<open>d3.min\<close> return when they saw no
  comparable value). \<open>Num x\<close> is a number other than \<^verbatim>\<open>NaN\<close>; the aggregation code only
  compares numbers, so the carrier is any linear order (the reals for temperatures, the
  integers for years).
\<close>

datatype 'a jsval = Undefined | NaN | Num 'a

type_synonym num = "real jsval"

text \<open>The relational operators of JavaScript: every comparison with \<^verbatim>\<open>NaN\<close> or
  \<^verbatim>\<open>undefined\<close> (which converts to \<^verbatim>\<open>NaN\<close>) is false.\<close>

fun js_lt :: "'a::linorder jsval \<Rightarrow> 'a jsval \<Rightarrow> bool" where
  "js_lt (Num a) (Num b) = (a < b)"
| "js_lt _ _ = False"

fun js_gt :: "'a::linorder jsval \<Rightarrow> 'a jsval \<Rightarrow> bool" where
  "js_gt (Num a) (Num b) = (a > b)"
| "js_gt _ _ = False"

fun js_ge :: "'a::linorder jsval \<Rightarrow> 'a jsval \<Rightarrow> bool" where
  "js_ge (Num a) (Num b) = (a \<ge> b)"
| "js_ge _ _ = False"

text \<open>Subtraction: \<^verbatim>\<open>undefined - 9\<close> and \<^verbatim>\<open>NaN - 9\<close> are \<^verbatim>\<open>NaN\<close>.\<close>

fun js_sub :: "'a::minus jsval \<Rightarrow> 'a jsval \<Rightarrow> 'a jsval" where
  "js_sub (Num a) (Num b) = Num (a - b)"
| "js_sub _ _ = NaN"

section \<open>Double-precision arithmetic\<close>

text \<open>
  JavaScript numbers are IEEE-754 doubles. Where the script floors the result of an
  arithmetic expression the rounding of every operation decides the result, so the
  operations are modelled with their rounding: \<open>binary64 x\<close> is the double nearest to the
  real \<open>x\<close>, ties to even. With \<open>e\<close> the binary exponent of \<open>x\<close> (and that of the least normal
  double for a smaller \<open>x\<close>), the doubles next to \<open>x\<close> are the multiples of \<open>2 powi (e - 52)\<close>.
  A result beyond the largest double is \<^verbatim>\<open>Infinity\<close> in JavaScript; pointer offsets and
  day counts stay far below it, and \<open>binary64\<close> rounds such a value as if the exponent
  range had no upper end.
\<close>

definition round_half_even :: "real \<Rightarrow> int" where
  "round_half_even x =
     (let f = \<lfloor>x\<rfloor>; r = x - real_of_int f
      in if r < 1 / 2 then f else if 1 / 2 < r then f + 1 else if even f then f else f + 1)"

text \<open>The exponent \<open>e\<close> with \<open>2 powi e \<le> a < 2 powi (e + 1)\<close>, found by stepping from a
  start value; 2200 steps from 0 reach the exponent of every double.\<close>

fun search_exponent :: "nat \<Rightarrow> int \<Rightarrow> real \<Rightarrow> int" where
  "search_exponent 0 e a = e"
| "search_exponent (Suc k) e a =
     (if a < 2 powi e then search_exponent k (e - 1) a
      else if 2 powi (e + 1) \<le> a then search_exponent k (e + 1) a
      else e)"

definition exponent :: "real \<Rightarrow> int" where
  "exponent a = search_exponent 2200 0 a"

definition binary64 :: "real \<Rightarrow> real" where
  "binary64 x =
     (if x = 0 then 0
      else let e = max (exponent \<bar>x\<bar>) (- 1022); ulp = 2 powi (e - 52)
           in real_of_int (round_half_even (x / ulp)) * ulp)"

section \<open>The d3-array functions the script calls\<close>

text \<open>
  \<^verbatim>\<open>d3.max(values, valueof)\<close>: one pass with the running maximum, starting from
  \<^verbatim>\<open>undefined\<close>; a value replaces it when
  \<^verbatim>\<open>value != null && (max < value || (max === undefined && value >= value))\<close>.
  \<^verbatim>\<open>d3.min\<close> is the same with \<^verbatim>\<open>min > value\<close>.
\<close>

definition d3_max_step :: "'a::linorder jsval \<Rightarrow> 'a jsval \<Rightarrow> 'a jsval" where
  "d3_max_step m v =
     (if v \<noteq> Undefined \<and> (js_lt m v \<or> (m = Undefined \<and> js_ge v v)) then v else m)"

definition d3_min_step :: "'a::linorder jsval \<Rightarrow> 'a jsval \<Rightarrow> 'a jsval" where
  "d3_min_step m v =
     (if v \<noteq> Undefined \<and> (js_gt m v \<or> (m = Undefined \<and> js_ge v v)) then v else m)"

definition d3_max :: "('b \<Rightarrow> 'a::linorder jsval) \<Rightarrow> 'b list \<Rightarrow> 'a jsval" where
  "d3_max valueof values = foldl (\<lambda>m x. d3_max_step m (valueof x)) Undefined values"

definition d3_min :: "('b \<Rightarrow> 'a::linorder jsval) \<Rightarrow> 'b list \<Rightarrow> 'a jsval" where
  "d3_min valueof values = foldl (\<lambda>m x. d3_min_step m (valueof x)) Undefined values"

text \<open>
  \<^verbatim>\<open>d3.extent(values, valueof)\<close>: one pass with the pair \<^verbatim>\<open>[min, max]\<close>; the first
  value with \<^verbatim>\<open>value >= value\<close> sets both, later ones lower \<^verbatim>\<open>min\<close> or raise
  \<^verbatim>\<open>max\<close>.
\<close>

definition d3_extent_step :: "'a::linorder jsval \<times> 'a jsval \<Rightarrow> 'a jsval \<Rightarrow> 'a jsval \<times> 'a jsval" where
  "d3_extent_step mm v =
     (if v \<noteq> Undefined then
        (if fst mm = Undefined then (if js_ge v v then (v, v) else mm)
         else (if js_gt (fst mm) v then v else fst mm, if js_lt (snd mm) v then v else snd mm))
      else mm)"

definition d3_extent :: "('b \<Rightarrow> 'a::linorder jsval) \<Rightarrow> 'b list \<Rightarrow> 'a jsval \<times> 'a jsval" where
  "d3_extent valueof values =
     foldl (\<lambda>mm x. d3_extent_step mm (valueof x)) (Undefined, Undefined) values"

text \<open>
  \<^verbatim>\<open>d3.rollup(values, reduce, key1, key2)\<close> builds insertion-ordered maps. One level
  (\<^verbatim>\<open>regroup\<close> in d3-array) walks the values in order: a value whose key is already in the
  map is pushed onto that key's group, any other key is set at the end of the map with
  a fresh one-element group. \<^verbatim>\<open>Map.prototype.forEach\<close> then visits the entries in
  insertion order, so the map is an association list.
\<close>

fun group_push :: "'k \<Rightarrow> 'b \<Rightarrow> ('k \<times> 'b list) list \<Rightarrow> ('k \<times> 'b list) list" where
  "group_push k v [] = [(k, [v])]"
| "group_push k v ((k', g) # groups) =
     (if k' = k then (k', g @ [v]) # groups else (k', g) # group_push k v groups)"

definition regroup :: "('b \<Rightarrow> 'k) \<Rightarrow> 'b list \<Rightarrow> ('k \<times> 'b list) list" where
  "regroup keyof values = foldl (\<lambda>groups v. group_push (keyof v) v groups) [] values"

definition d3_rollup ::
  "'b list \<Rightarrow> ('b list \<Rightarrow> 'r) \<Rightarrow> ('b \<Rightarrow> 'k1) \<Rightarrow> ('b \<Rightarrow> 'k2) \<Rightarrow> ('k1 \<times> ('k2 \<times> 'r) list) list" where
  "d3_rollup values reduce key1 key2 =
     map (\<lambda>(k1, g1). (k1, map (\<lambda>(k2, g2). (k2, reduce g2)) (regroup key2 g1)))
       (regroup key1 values)"

section \<open>The data model\<close>

text \<open>
  A parsed date, read through the accessors the script uses: \<^verbatim>\<open>getFullYear()\<close>,
  \<^verbatim>\<open>getMonth()\<close> (0 for January) and the day of the month. \<^verbatim>\<open>d3.timeParse("%Y-%m-%d")\<close>
  yields local midnight of that day, so the time value that \<^verbatim>\<open>d3.ascending\<close> compares
  orders dates as the triple (year, month, day) does.
\<close>

record jsdate =
  getFullYear :: int
  getMonth :: int
  getDate :: int

definition valueOf :: "jsdate \<Rightarrow> int \<times> int \<times> int" where
  "valueOf d = (getFullYear d, getMonth d, getDate d)"

record daily =
  date :: jsdate
  max_temperature :: num
  min_temperature :: num

record cell_key =
  year :: int
  month :: int

record summary = cell_key +
  smax :: num
  smin :: num

record bucket = cell_key +
  days :: "daily list"

section \<open>The aggregator\<close>

text \<open>The two key functions of both roll-ups: \<^verbatim>\<open>d => d.date.getFullYear()\<close> and
  \<^verbatim>\<open>d => d.date.getMonth() + 1\<close>.\<close>

definition year_of :: "daily \<Rightarrow> int" where
  "year_of d = getFullYear (date d)"

definition month_of :: "daily \<Rightarrow> int" where
  "month_of d = getMonth (date d) + 1"

text \<open>The nested \<^verbatim>\<open>forEach\<close> that pushes one object per (year, month) entry.\<close>

definition flatten_rollup :: "(int \<Rightarrow> int \<Rightarrow> 'r \<Rightarrow> 'o) \<Rightarrow> (int \<times> (int \<times> 'r) list) list \<Rightarrow> 'o list" where
  "flatten_rollup mk m = concat (map (\<lambda>(y, months). map (\<lambda>(mo, r). mk y mo r) months) m)"

definition createAggregatedData :: "daily list \<Rightarrow> summary list" where
  "createAggregatedData data =
     flatten_rollup (\<lambda>y mo temps. \<lparr>year = y, month = mo, smax = fst temps, smin = snd temps\<rparr>)
       (d3_rollup data
          (\<lambda>values. (d3_max max_temperature values, d3_min min_temperature values))
          year_of month_of)"

text \<open>
  \<^verbatim>\<open>v.sort((a, b) => d3.ascending(a.date, b.date))\<close> sorts the group array in place;
  \<^verbatim>\<open>Array.prototype.sort\<close> is stable, and the stable sort of a list by a key is unique:
  it is \<open>sort_key\<close>.
\<close>

definition createDailyData :: "daily list \<Rightarrow> bucket list" where
  "createDailyData filteredData =
     flatten_rollup (\<lambda>y mo ds. \<lparr>year = y, month = mo, days = ds\<rparr>)
       (d3_rollup filteredData (sort_key (\<lambda>d. valueOf (date d))) year_of month_of)"

section \<open>Initialisation: the retained window\<close>

text \<open>
  \<^verbatim>\<open>const maxYear = d3.max(data, d => d.date.getFullYear());\<close>
  \<^verbatim>\<open>const filteredData = data.filter(d => d.date.getFullYear() >= maxYear - 9);\<close>
\<close>

definition maxYear :: "daily list \<Rightarrow> int jsval" where
  "maxYear data = d3_max (\<lambda>d. Num (year_of d)) data"

definition recentYears :: "daily list \<Rightarrow> daily list" where
  "recentYears data =
     filter (\<lambda>d. js_ge (Num (year_of d)) (js_sub (maxYear data) (Num 9))) data"

section \<open>What the rendering collaborator is handed\<close>

text \<open>
  The scales are d3's; the script decides their domains and the values they are applied
  to. A fill is therefore kept as the pair it is computed from: \<open>YlOrRd dom v\<close> is
  \<^verbatim>\<open>d3.scaleSequential(d3.interpolateYlOrRd).domain(dom)(v)\<close>, and \<open>ScaleLinear dom rng v\<close>
  is \<^verbatim>\<open>d3.scaleLinear().domain(dom).range(rng)(v)\<close>. A line path is the list of its points.
\<close>

datatype color = YlOrRd "num \<times> num" num

datatype coord = ScaleLinear "num \<times> num" "real \<times> real" num

type_synonym path = "(coord \<times> coord) list"

text \<open>
  \<^verbatim>\<open>[...new Set(xs)]\<close>: the distinct elements in order of first insertion.
\<close>

definition js_Set :: "'a list \<Rightarrow> 'a list" where
  "js_Set xs = foldl (\<lambda>acc x. if x \<in> set acc then acc else acc @ [x]) [] xs"

text \<open>
  \<^verbatim>\<open>d3.scaleBand().domain(dom).range([0, extent]).padding(0.1)\<close>: a value of the
  domain is placed in the band of its index (\<open>scaleBand\<close> gives the index, none for a
  value outside the domain), and every band is \<open>bandwidth\<close> wide:
  \<^verbatim>\<open>step = (stop - start) / Math.max(1, n - paddingInner + paddingOuter * 2)\<close>,
  \<^verbatim>\<open>bandwidth = step * (1 - paddingInner)\<close>.
\<close>

fun scaleBand :: "'a list \<Rightarrow> 'a \<Rightarrow> nat option" where
  "scaleBand [] v = None"
| "scaleBand (x # xs) v = (if x = v then Some 0 else map_option Suc (scaleBand xs v))"

definition bandwidth :: "nat \<Rightarrow> real \<Rightarrow> real" where
  "bandwidth n extent = extent / max 1 (real n - 1 / 10 + (1 / 10) * 2) * (1 - 1 / 10)"

text \<open>
  The same band width as the double d3 holds: \<^verbatim>\<open>padding(0.1)\<close> sets
  \<^verbatim>\<open>paddingInner = Math.min(1, paddingOuter = 0.1)\<close>, and every operation of
  \<^verbatim>\<open>step = (stop - start) / Math.max(1, n - paddingInner + paddingOuter * 2)\<close> and
  \<^verbatim>\<open>bandwidth = step * (1 - paddingInner)\<close> rounds. It differs from \<open>bandwidth\<close> by
  rounding only; it is used where the script floors a quotient by the band width.
\<close>

definition bandwidth64 :: "nat \<Rightarrow> real \<Rightarrow> real" where
  "bandwidth64 n extent =
     (let paddingOuter = binary64 (1 / 10);
          paddingInner = min 1 paddingOuter;
          step = binary64 (extent /
                   max 1 (binary64 (binary64 (real n - paddingInner) + binary64 (paddingOuter * 2))))
      in binary64 (step * binary64 (1 - paddingInner)))"

text \<open>
  \<^verbatim>\<open>selection.data(data, key)\<close> followed by \<^verbatim>\<open>enter().append(...)\<close>,
  \<^verbatim>\<open>merge\<close> and \<^verbatim>\<open>exit().remove()\<close>, after d3-selection's \<^verbatim>\<open>bindKey\<close>: each datum in
  turn takes the first existing node whose bound datum has its key (the node is rebound
  to the datum and its key leaves the table), or enters a new node; nodes left over are
  removed. The result is the merged selection, one node per datum.
  The key \<^verbatim>\<open>`${d.year}-${d.month}`\<close> of both heatmaps is the pair (year, month).
\<close>

fun bindKey ::
  "('d \<Rightarrow> 'k) \<Rightarrow> ('n \<Rightarrow> 'd) \<Rightarrow> ('n \<Rightarrow> 'd \<Rightarrow> 'n) \<Rightarrow> ('d \<Rightarrow> 'n) \<Rightarrow> 'n list \<Rightarrow> 'd list \<Rightarrow> 'n list" where
  "bindKey key datum rebind enter nodes [] = []"
| "bindKey key datum rebind enter nodes (d # ds) =
     (case find (\<lambda>n. key (datum n) = key d) nodes of
        Some n \<Rightarrow> rebind n d #
          bindKey key datum rebind enter (filter (\<lambda>n. key (datum n) \<noteq> key d) nodes) ds
      | None \<Rightarrow> enter d # bindKey key datum rebind enter nodes ds)"

definition cell_id :: "'z cell_key_scheme \<Rightarrow> int \<times> int" where
  "cell_id d = (year d, month d)"

section \<open>The aggregated (year by month) heatmap\<close>

text \<open>A \<^verbatim>\<open>rect.matrix\<close> element: its bound datum, the position set when it enters, and
  its fill.\<close>

record rect =
  rect_data :: summary
  rect_x :: "nat option"
  rect_y :: "nat option"
  rect_fill :: "color option"

record heatmap1 =
  processedData :: "summary list"
  colorScale_domain :: "num \<times> num"
  legendScale_domain :: "num \<times> num"
  matrix :: "rect list"

text \<open>\<^verbatim>\<open>d[tempType]\<close> on a summary object \<^verbatim>\<open>{year, month, max, min}\<close>. The radio
  buttons send \<^verbatim>\<open>"max"\<close> or \<^verbatim>\<open>"min"\<close>; a name that is not one of the four own
  properties is read as a missing property.\<close>

definition summary_get :: "summary \<Rightarrow> string \<Rightarrow> num" where
  "summary_get d tempType =
     (if tempType = ''max'' then smax d
      else if tempType = ''min'' then smin d
      else if tempType = ''year'' then Num (real_of_int (year d))
      else if tempType = ''month'' then Num (real_of_int (month d))
      else Undefined)"

definition enter_rect :: "summary list \<Rightarrow> summary \<Rightarrow> rect" where
  "enter_rect pd d =
     \<lparr>rect_data = d,
      rect_x = scaleBand (js_Set (map year pd)) (year d),
      rect_y = scaleBand (js_Set (map month pd)) (month d),
      rect_fill = None\<rparr>"

definition updateMatrix1 :: "string \<Rightarrow> heatmap1 \<Rightarrow> heatmap1" where
  "updateMatrix1 tempType h =
     h\<lparr>matrix :=
          map (\<lambda>n. n\<lparr>rect_fill :=
                      Some (YlOrRd (colorScale_domain h) (summary_get (rect_data n) tempType))\<rparr>)
            (bindKey cell_id rect_data (\<lambda>n d. n\<lparr>rect_data := d\<rparr>)
               (enter_rect (processedData h)) (matrix h) (processedData h))\<rparr>"

definition getExtent :: "summary list \<Rightarrow> string \<Rightarrow> num \<times> num" where
  "getExtent pd tempType =
     (if tempType = ''max'' then d3_extent smax pd else d3_extent smin pd)"

definition updateLegend1 :: "string \<Rightarrow> heatmap1 \<Rightarrow> heatmap1" where
  "updateLegend1 tempType h = h\<lparr>legendScale_domain := getExtent (processedData h) tempType\<rparr>"

definition createYearlyHeatmap :: "summary list \<Rightarrow> heatmap1" where
  "createYearlyHeatmap pd =
     updateMatrix1 ''max''
       \<lparr>processedData = pd,
        colorScale_domain = (d3_min smin pd, d3_max smax pd),
        legendScale_domain = (d3_min smin pd, d3_max smax pd),
        matrix = []\<rparr>"

text \<open>The calls a caller can make on the object the constructor returns.\<close>

datatype call = UpdateMatrix string | UpdateLegend string

fun call1 :: "heatmap1 \<Rightarrow> call \<Rightarrow> heatmap1" where
  "call1 h (UpdateMatrix t) = updateMatrix1 t h"
| "call1 h (UpdateLegend t) = updateLegend1 t h"

section \<open>The recent-years daily heatmap\<close>

text \<open>A \<^verbatim>\<open>g.cell\<close> group: its bound bucket, the translation set when it enters, the fill of
  its background rectangle and the \<^verbatim>\<open>d\<close> attribute of its two mini line paths.\<close>

record cell =
  cell_data :: bucket
  cell_transform :: "nat option \<times> nat option"
  cell_bg_fill :: "color option"
  mini_line_max :: "path option"
  mini_line_min :: "path option"

record heatmap2 =
  processedDailyData :: "bucket list"
  filteredData :: "daily list"
  globalMiniExtent :: "num \<times> num"
  legendScale_domain2 :: "num \<times> num"
  cells :: "cell list"

text \<open>The band scales: \<^verbatim>\<open>[...new Set(processedDailyData.map(d => d.year))].sort((a, b) => a - b)\<close>
  over the ranges \<^verbatim>\<open>[0, width]\<close> and \<^verbatim>\<open>[0, height]\<close>, with
  \<^verbatim>\<open>width = 900 - 80 - 30\<close> and \<^verbatim>\<open>height = 500 - 50 - 100\<close>.\<close>

definition years :: "bucket list \<Rightarrow> int list" where
  "years pdd = sort (js_Set (map year pdd))"

definition months :: "bucket list \<Rightarrow> int list" where
  "months pdd = sort (js_Set (map month pdd))"

definition cellWidth :: "bucket list \<Rightarrow> real" where
  "cellWidth pdd = bandwidth (length (years pdd)) (900 - 80 - 30)"

definition cellHeight :: "bucket list \<Rightarrow> real" where
  "cellHeight pdd = bandwidth (length (months pdd)) (500 - 50 - 100)"

definition getGlobalTempExtent :: "daily list \<Rightarrow> string \<Rightarrow> num \<times> num" where
  "getGlobalTempExtent fd tempType =
     (if tempType = ''max'' then d3_extent max_temperature fd else d3_extent min_temperature fd)"

definition enter_cell :: "bucket list \<Rightarrow> bucket \<Rightarrow> cell" where
  "enter_cell pdd d =
     \<lparr>cell_data = d,
      cell_transform = (scaleBand (years pdd) (year d), scaleBand (months pdd) (month d)),
      cell_bg_fill = None, mini_line_max = None, mini_line_min = None\<rparr>"

text \<open>The value behind a cell's background:
  \<^verbatim>\<open>tempType === "max" ? d3.max(d.days, day => day.max_temperature)
                      : d3.min(d.days, day => day.min_temperature)\<close>.\<close>

definition aggVal :: "string \<Rightarrow> bucket \<Rightarrow> num" where
  "aggVal tempType d =
     (if tempType = ''max'' then d3_max max_temperature (days d)
      else d3_min min_temperature (days d))"

text \<open>
  \<^verbatim>\<open>d3.line().x((_, i) => xMini(i + 1)).y(day => yMini(valueof(day)))(d.days)\<close> with
  \<^verbatim>\<open>xMini\<close> of domain \<^verbatim>\<open>[1, d.days.length]\<close> and range \<^verbatim>\<open>[0, cellWidth]\<close>, and \<^verbatim>\<open>yMini\<close>
  of domain \<^verbatim>\<open>globalMiniExtent\<close> and range \<^verbatim>\<open>[cellHeight, 0]\<close>.
\<close>

definition xMini_domain :: "bucket \<Rightarrow> num \<times> num" where
  "xMini_domain d = (Num 1, Num (real (length (days d))))"

definition mini_line :: "(daily \<Rightarrow> num) \<Rightarrow> heatmap2 \<Rightarrow> bucket \<Rightarrow> path" where
  "mini_line valueof h d =
     map (\<lambda>(i, day).
            (ScaleLinear (xMini_domain d) (0, cellWidth (processedDailyData h)) (Num (real (i + 1))),
             ScaleLinear (globalMiniExtent h) (cellHeight (processedDailyData h), 0) (valueof day)))
       (enumerate 0 (days d))"

definition updateMatrix2 :: "string \<Rightarrow> heatmap2 \<Rightarrow> heatmap2" where
  "updateMatrix2 tempType h =
     (let colorScale_domain2 = getGlobalTempExtent (filteredData h) tempType;
          cellsMerge =
            bindKey cell_id cell_data (\<lambda>n d. n\<lparr>cell_data := d\<rparr>)
              (enter_cell (processedDailyData h)) (cells h) (processedDailyData h)
      in h\<lparr>cells :=
             map (\<lambda>n. n\<lparr>cell_bg_fill :=
                           Some (YlOrRd colorScale_domain2 (aggVal tempType (cell_data n))),
                         mini_line_max := Some (mini_line max_temperature h (cell_data n)),
                         mini_line_min := Some (mini_line min_temperature h (cell_data n))\<rparr>)
               cellsMerge\<rparr>)"

definition updateLegend2 :: "string \<Rightarrow> heatmap2 \<Rightarrow> heatmap2" where
  "updateLegend2 tempType h =
     h\<lparr>legendScale_domain2 := getGlobalTempExtent (filteredData h) tempType\<rparr>"

definition createRecentYearsHeatmap :: "bucket list \<Rightarrow> daily list \<Rightarrow> heatmap2" where
  "createRecentYearsHeatmap pdd fd =
     updateMatrix2 ''max''
       \<lparr>processedDailyData = pdd,
        filteredData = fd,
        globalMiniExtent = (d3_min min_temperature fd, d3_max max_temperature fd),
        legendScale_domain2 = (d3_min min_temperature fd, d3_max max_temperature fd),
        cells = []\<rparr>"

fun call2 :: "heatmap2 \<Rightarrow> call \<Rightarrow> heatmap2" where
  "call2 h (UpdateMatrix t) = updateMatrix2 t h"
| "call2 h (UpdateLegend t) = updateLegend2 t h"

subsection \<open>Hovering a cell\<close>

text \<open>The shared tooltip element: whether it is displayed, its content and its position.
  The content of the daily tooltip is the day's formatted date and its two temperatures.\<close>

datatype tip = NoTip | DayTip jsdate num num

record tooltip =
  display :: bool
  html :: tip
  left :: real
  top :: real

text \<open>\<^verbatim>\<open>d.days[dayIndex]\<close>: the element at an index inside the array,
  \<^verbatim>\<open>undefined\<close> at any other.\<close>

definition array_get :: "'a list \<Rightarrow> int \<Rightarrow> 'a option" where
  "array_get xs i = (if 0 \<le> i \<and> i < int (length xs) then Some (xs ! nat i) else None)"

text \<open>\<^verbatim>\<open>xScale.bandwidth()\<close> as the handlers read it: the double band width of the years
  of the buckets over \<^verbatim>\<open>[0, width]\<close>.\<close>

definition xScale_bandwidth :: "bucket list \<Rightarrow> real" where
  "xScale_bandwidth pdd = bandwidth64 (length (years pdd)) (900 - 80 - 30)"

text \<open>\<^verbatim>\<open>Math.floor((mx / xScale.bandwidth()) * d.days.length)\<close>, with \<^verbatim>\<open>mx\<close> the
  horizontal pointer offset inside the cell (a double): the quotient is rounded, the
  product is rounded, and the floor is taken of the rounded product.\<close>

definition dayIndex :: "heatmap2 \<Rightarrow> bucket \<Rightarrow> real \<Rightarrow> int" where
  "dayIndex h d mx =
     \<lfloor>binary64 (binary64 (mx / xScale_bandwidth (processedDailyData h)) * real (length (days d)))\<rfloor>"

text \<open>
  The three handlers of a cell. \<^verbatim>\<open>mouseover\<close> looks the day up and, when there is one, shows
  the tooltip with the day's content; \<^verbatim>\<open>mousemove\<close> looks the day up again and, when there
  is one, sets \<^verbatim>\<open>left\<close> to \<^verbatim>\<open>(event.pageX + 10) + "px"\<close> and \<^verbatim>\<open>top\<close> to
  \<^verbatim>\<open>(event.pageY - 10) + "px"\<close>; \<^verbatim>\<open>mouseout\<close> hides the tooltip.
\<close>

definition mouseover2 :: "heatmap2 \<Rightarrow> bucket \<Rightarrow> real \<Rightarrow> tooltip \<Rightarrow> tooltip" where
  "mouseover2 h d mx tt =
     (case array_get (days d) (dayIndex h d mx) of
        Some dayData \<Rightarrow>
          tt\<lparr>display := True,
             html := DayTip (date dayData) (max_temperature dayData) (min_temperature dayData)\<rparr>
      | None \<Rightarrow> tt)"

definition mousemove2 :: "heatmap2 \<Rightarrow> bucket \<Rightarrow> real \<Rightarrow> real \<times> real \<Rightarrow> tooltip \<Rightarrow> tooltip" where
  "mousemove2 h d mx page tt =
     (case array_get (days d) (dayIndex h d mx) of
        Some dayData \<Rightarrow>
          tt\<lparr>left := binary64 (fst page + 10), top := binary64 (snd page - 10)\<rparr>
      | None \<Rightarrow> tt)"

definition mouseout2 :: "tooltip \<Rightarrow> tooltip" where
  "mouseout2 tt = tt\<lparr>display := False\<rparr>"

section \<open>Wiring\<close>

text \<open>\<^verbatim>\<open>initVisualizations\<close> builds the first heatmap from the summaries of the full data
  and the second from the buckets of the filtered data.\<close>

definition initVisualizations :: "daily list \<Rightarrow> heatmap1 \<times> heatmap2" where
  "initVisualizations data =
     (let processedData = createAggregatedData data;
          filteredData = recentYears data;
          processedDailyData = createDailyData filteredData
      in (createYearlyHeatmap processedData,
          createRecentYearsHeatmap processedDailyData filteredData))"

text \<open>The change handler of the radio buttons.\<close>

definition on_change :: "string \<Rightarrow> heatmap1 \<times> heatmap2 \<Rightarrow> heatmap1 \<times> heatmap2" where
  "on_change selectedType hs =
     (updateLegend1 selectedType (updateMatrix1 selectedType (fst hs)),
      updateLegend2 selectedType (updateMatrix2 selectedType (snd hs)))"

section \<open>Notions the properties are stated in\<close>

text \<open>A Daily Record of the data model has two temperatures that are numbers.\<close>

fun is_number :: "'a jsval \<Rightarrow> bool" where
  "is_number (Num a) = True"
| "is_number _ = False"

definition daily_record :: "daily \<Rightarrow> bool" where
  "daily_record d \<longleftrightarrow> is_number (max_temperature d) \<and> is_number (min_temperature d)"

text \<open>The numbers among the values a field takes on a list.\<close>

definition nums :: "('b \<Rightarrow> 'a jsval) \<Rightarrow> 'b list \<Rightarrow> 'a set" where
  "nums f xs = {a. \<exists>x\<in>set xs. f x = Num a}"

text \<open>\<open>m\<close> is the maximum (the minimum) of a list of values: it is one of them, and the
  comparison with each of them holds. No list with a \<^verbatim>\<open>NaN\<close> in it has one.\<close>

definition is_maximum :: "'a::linorder jsval \<Rightarrow> 'a jsval list \<Rightarrow> bool" where
  "is_maximum m vs \<longleftrightarrow> m \<in> set vs \<and> list_all (\<lambda>v. js_ge m v) vs"

definition is_minimum :: "'a::linorder jsval \<Rightarrow> 'a jsval list \<Rightarrow> bool" where
  "is_minimum m vs \<longleftrightarrow> m \<in> set vs \<and> list_all (\<lambda>v. js_ge v m) vs"

text \<open>The (year, month) pair of a record, and the records of one pair, in input order.\<close>

definition cell_of :: "daily \<Rightarrow> int \<times> int" where
  "cell_of d = (year_of d, month_of d)"

definition records_of :: "int \<times> int \<Rightarrow> daily list \<Rightarrow> daily list" where
  "records_of k data = filter (\<lambda>d. cell_of d = k) data"

text \<open>The groups of the two-level roll-up, before they are reduced.\<close>

definition month_groups :: "daily list \<Rightarrow> ((int \<times> int) \<times> daily list) list" where
  "month_groups data =
     concat (map (\<lambda>(y, g1). map (\<lambda>(mo, g2). ((y, mo), g2)) (regroup month_of g1))
       (regroup year_of data))"

text \<open>The temperature column a field name selects in the recent-years view.\<close>

definition column :: "string \<Rightarrow> daily \<Rightarrow> num" where
  "column tempType = (if tempType = ''max'' then max_temperature else min_temperature)"

text \<open>A record from the three columns of a CSV row; the month of \<^verbatim>\<open>"2020-01-15"\<close>
  is read back by \<^verbatim>\<open>getMonth()\<close> as 0.\<close>

definition row :: "int \<Rightarrow> int \<Rightarrow> int \<Rightarrow> real \<Rightarrow> real \<Rightarrow> daily" where
  "row y m d hi lo =
     \<lparr>date = \<lparr>getFullYear = y, getMonth = m - 1, getDate = d\<rparr>,
      max_temperature = Num hi, min_temperature = Num lo\<rparr>"

definition scenario_rows :: "daily list" where
  "scenario_rows = [row 2020 1 15 10 2, row 2020 1 20 15 (-1), row 2020 2 1 5 (-5)]"

definition witness_rows :: "daily list" where
  "witness_rows = [row 2019 12 31 3 (-2), row 2020 1 15 10 2, row 2019 12 1 7 1]"

definition window_rows :: "daily list" where
  "window_rows = [row 2020 3 1 9 4, row 2011 7 2 30 18, row 2010 7 2 31 19, row 2015 1 9 2 (-3)]"

text \<open>A single day whose two temperatures are equal.\<close>

definition flat_rows :: "daily list" where
  "flat_rows = [row 2020 1 1 5 5]"

text \<open>What one \<^verbatim>\<open>updateMatrix\<close> call sets on every node of the merged selection.\<close>

definition paint_rect :: "string \<Rightarrow> heatmap1 \<Rightarrow> rect \<Rightarrow> rect" where
  "paint_rect tempType h n =
     n\<lparr>rect_fill := Some (YlOrRd (colorScale_domain h) (summary_get (rect_data n) tempType))\<rparr>"

definition paint_cell :: "string \<Rightarrow> heatmap2 \<Rightarrow> cell \<Rightarrow> cell" where
  "paint_cell tempType h n =
     n\<lparr>cell_bg_fill :=
         Some (YlOrRd (getGlobalTempExtent (filteredData h) tempType) (aggVal tempType (cell_data n))),
       mini_line_max := Some (mini_line max_temperature h (cell_data n)),
       mini_line_min := Some (mini_line min_temperature h (cell_data n))\<rparr>"

text \<open>The two heatmaps after initialisation from the loaded records and a sequence of
  calls on each.\<close>

definition heatmap1_after :: "daily list \<Rightarrow> call list \<Rightarrow> heatmap1" where
  "heatmap1_after data cs = foldl call1 (fst (initVisualizations data)) cs"

definition heatmap2_after :: "daily list \<Rightarrow> call list \<Rightarrow> heatmap2" where
  "heatmap2_after data cs = foldl call2 (snd (initVisualizations data)) cs"


text \<open>The tooltip before any hover.\<close>

definition hidden_tooltip :: tooltip where
  "hidden_tooltip = \<lparr>display = False, html = NoTip, left = 0, top = 0\<rparr>"

text \<open>The bucket of December 2019 in the buckets of \<open>witness_rows\<close>.\<close>

definition december_2019 :: bucket where
  "december_2019 =
     \<lparr>year = 2019, month = 12, days = [row 2019 12 1 7 1, row 2019 12 31 3 (- 2)]\<rparr>"

text \<open>Five days of March 2020 given out of order, with the warmest and the coldest day
  in the middle of the month, and one day each of July 2011 and of July 2009.\<close>

definition agree_rows :: "daily list" where
  "agree_rows =
     [row 2020 3 4 8 3, row 2009 7 2 31 19, row 2020 3 1 9 4, row 2020 3 3 7 1,
      row 2011 7 2 30 18, row 2020 3 2 12 5]"

section \<open>Properties of the d3 functions\<close>

lemma nums_Nil: "nums f [] = {}"
  by (simp add: nums_def)

lemma nums_Cons:
  "nums f (x # xs) = (case f x of Num a \<Rightarrow> insert a (nums f xs) | _ \<Rightarrow> nums f xs)"
  by (auto simp: nums_def split: jsval.splits)

lemma finite_nums: "finite (nums f xs)"
  by (induction xs) (auto simp: nums_Nil nums_Cons split: jsval.splits)

lemma nums_set_cong: "set xs = set ys \<Longrightarrow> nums f xs = nums f ys"
  by (simp add: nums_def)

lemma Max_insert_max: "finite S \<Longrightarrow> Max (insert (max a b) S) = Max (insert a (insert b S))"
  by (cases "S = {}") (simp_all add: max.assoc)

lemma Min_insert_min: "finite S \<Longrightarrow> Min (insert (min a b) S) = Min (insert a (insert b S))"
  by (cases "S = {}") (simp_all add: min.assoc)

lemma d3_max_step_Undefined:
  "d3_max_step Undefined v = (case v of Num a \<Rightarrow> Num a | _ \<Rightarrow> Undefined)"
  by (cases v) (simp_all add: d3_max_step_def)

lemma d3_max_step_Num:
  "d3_max_step (Num a) v = (case v of Num b \<Rightarrow> Num (max a b) | _ \<Rightarrow> Num a)"
  by (cases v) (auto simp: d3_max_step_def max_def)

lemma d3_min_step_Undefined:
  "d3_min_step Undefined v = (case v of Num a \<Rightarrow> Num a | _ \<Rightarrow> Undefined)"
  by (cases v) (simp_all add: d3_min_step_def)

lemma d3_min_step_Num:
  "d3_min_step (Num a) v = (case v of Num b \<Rightarrow> Num (min a b) | _ \<Rightarrow> Num a)"
  by (cases v) (auto simp: d3_min_step_def min_def)

lemma foldl_d3_max_Num:
  "foldl (\<lambda>m x. d3_max_step m (f x)) (Num a) xs = Num (Max (insert a (nums f xs)))"
proof (induction xs arbitrary: a)
  case Nil
  show ?case by (simp add: nums_Nil)
next
  case (Cons x xs)
  show ?case
  proof (cases "f x")
    case (Num b)
    then show ?thesis
      by (simp add: d3_max_step_Num nums_Cons Cons.IH Max_insert_max finite_nums)
  qed (simp_all add: d3_max_step_Num nums_Cons Cons.IH)
qed

lemma foldl_d3_min_Num:
  "foldl (\<lambda>m x. d3_min_step m (f x)) (Num a) xs = Num (Min (insert a (nums f xs)))"
proof (induction xs arbitrary: a)
  case Nil
  show ?case by (simp add: nums_Nil)
next
  case (Cons x xs)
  show ?case
  proof (cases "f x")
    case (Num b)
    then show ?thesis
      by (simp add: d3_min_step_Num nums_Cons Cons.IH Min_insert_min finite_nums)
  qed (simp_all add: d3_min_step_Num nums_Cons Cons.IH)
qed

lemma d3_max_eq:
  "d3_max f xs = (if nums f xs = {} then Undefined else Num (Max (nums f xs)))"
  unfolding d3_max_def
proof (induction xs)
  case Nil
  show ?case by (simp add: nums_Nil)
next
  case (Cons x xs)
  then show ?case
    by (cases "f x") (simp_all add: d3_max_step_Undefined nums_Cons foldl_d3_max_Num)
qed

lemma d3_min_eq:
  "d3_min f xs = (if nums f xs = {} then Undefined else Num (Min (nums f xs)))"
  unfolding d3_min_def
proof (induction xs)
  case Nil
  show ?case by (simp add: nums_Nil)
next
  case (Cons x xs)
  then show ?case
    by (cases "f x") (simp_all add: d3_min_step_Undefined nums_Cons foldl_d3_min_Num)
qed


lemma d3_extent_step_Undefined:
  "d3_extent_step (Undefined, Undefined) v = (d3_min_step Undefined v, d3_max_step Undefined v)"
  by (cases v) (simp_all add: d3_extent_step_def d3_min_step_def d3_max_step_def)

lemma d3_extent_step_Num:
  "d3_extent_step (Num a, Num b) v = (d3_min_step (Num a) v, d3_max_step (Num b) v)"
  by (cases v) (simp_all add: d3_extent_step_def d3_min_step_def d3_max_step_def)

lemma foldl_d3_extent_Num:
  "foldl (\<lambda>mm x. d3_extent_step mm (f x)) (Num a, Num b) xs =
     (foldl (\<lambda>m x. d3_min_step m (f x)) (Num a) xs, foldl (\<lambda>m x. d3_max_step m (f x)) (Num b) xs)"
proof (induction xs arbitrary: a b)
  case Nil
  show ?case by simp
next
  case (Cons x xs)
  show ?case
    by (cases "f x")
      (simp_all add: d3_extent_step_Num d3_min_step_Num d3_max_step_Num Cons.IH)
qed

lemma d3_extent_eq: "d3_extent f xs = (d3_min f xs, d3_max f xs)"
  unfolding d3_extent_def d3_min_def d3_max_def
proof (induction xs)
  case Nil
  show ?case by simp
next
  case (Cons x xs)
  then show ?case
    by (cases "f x")
      (simp_all add: d3_extent_step_Undefined d3_min_step_Undefined d3_max_step_Undefined
         foldl_d3_extent_Num)
qed

subsection \<open>regroup\<close>

lemma regroup_snoc: "regroup f (xs @ [x]) = group_push (f x) x (regroup f xs)"
  by (simp add: regroup_def)

lemma keys_group_push:
  "map fst (group_push k v gs) = (if k \<in> fst ` set gs then map fst gs else map fst gs @ [k])"
  by (induction gs) (auto split: if_splits)

lemma map_of_group_push:
  "map_of (group_push k v gs) =
     (map_of gs)(k \<mapsto> (case map_of gs k of None \<Rightarrow> [v] | Some g \<Rightarrow> g @ [v]))"
  by (induction gs) (auto simp: fun_eq_iff)

lemma regroup_keys: "distinct (map fst (regroup f xs)) \<and> fst ` set (regroup f xs) = f ` set xs"
proof (induction xs rule: rev_induct)
  case Nil
  show ?case by (simp add: regroup_def)
next
  case (snoc x xs)
  have "set (map fst (regroup f (xs @ [x]))) = f ` set (xs @ [x])"
    using snoc unfolding regroup_snoc keys_group_push by auto
  moreover have "distinct (map fst (regroup f (xs @ [x])))"
    using snoc unfolding regroup_snoc keys_group_push by auto
  ultimately show ?case by simp
qed

lemma map_of_regroup:
  "map_of (regroup f xs) k = (if k \<in> f ` set xs then Some (filter (\<lambda>x. f x = k) xs) else None)"
proof (induction xs rule: rev_induct)
  case Nil
  show ?case by (simp add: regroup_def)
next
  case (snoc x xs)
  then show ?case
    by (auto simp: regroup_snoc map_of_group_push filter_empty_conv image_iff) metis
qed

lemma regroup_mem:
  "(k, g) \<in> set (regroup f xs) \<longleftrightarrow> k \<in> f ` set xs \<and> g = filter (\<lambda>x. f x = k) xs"
proof -
  have "(k, g) \<in> set (regroup f xs) \<longleftrightarrow> map_of (regroup f xs) k = Some g"
    using regroup_keys [of f xs] by simp
  then show ?thesis
    by (auto simp: map_of_regroup)
qed


subsection \<open>month groups\<close>

lemma month_groups_mem:
  "(k, g) \<in> set (month_groups data) \<longleftrightarrow> k \<in> cell_of ` set data \<and> g = records_of k data"
proof -
  have "(k, g) \<in> set (month_groups data) \<longleftrightarrow>
        (\<exists>y g1. (y, g1) \<in> set (regroup year_of data) \<and>
           (\<exists>mo. (mo, g) \<in> set (regroup month_of g1) \<and> k = (y, mo)))"
    by (force simp: month_groups_def)
  also have "\<dots> \<longleftrightarrow> (\<exists>y mo. k = (y, mo) \<and> y \<in> year_of ` set data \<and>
           mo \<in> month_of ` set (filter (\<lambda>d. year_of d = y) data) \<and>
           g = filter (\<lambda>d. month_of d = mo) (filter (\<lambda>d. year_of d = y) data))"
    by (auto simp: regroup_mem)
  also have "\<dots> \<longleftrightarrow> k \<in> cell_of ` set data \<and> g = records_of k data"
    by (cases k) (auto simp: cell_of_def records_of_def conj_commute image_iff; metis)
  finally show ?thesis .
qed

lemma distinct_concat_pairs:
  "distinct (map fst ys) \<Longrightarrow> (\<And>y g. (y, g) \<in> set ys \<Longrightarrow> distinct (F y g)) \<Longrightarrow>
   distinct (concat (map (\<lambda>(y, g). map (Pair y) (F y g)) ys))"
proof (induction ys)
  case Nil
  show ?case by simp
next
  case (Cons p ys)
  obtain a b where p: "p = (a, b)" by (cases p)
  have "distinct (map (Pair a) (F a b))"
    using Cons.prems(2) [of a b] by (simp add: p distinct_map inj_on_def)
  moreover have "distinct (concat (map (\<lambda>(y, g). map (Pair y) (F y g)) ys))"
    using Cons by simp
  moreover have "set (map (Pair a) (F a b)) \<inter>
      set (concat (map (\<lambda>(y, g). map (Pair y) (F y g)) ys)) = {}"
    using Cons.prems(1) by (force simp: p)
  ultimately show ?case
    by (simp add: p)
qed

lemma month_groups_keys:
  "map fst (month_groups data) =
     concat (map (\<lambda>(y, g1). map (Pair y) (map fst (regroup month_of g1))) (regroup year_of data))"
  by (simp add: month_groups_def map_concat comp_def case_prod_unfold)

lemma month_groups_distinct: "distinct (map fst (month_groups data))"
  unfolding month_groups_keys
  by (rule distinct_concat_pairs) (simp_all add: regroup_keys)

lemma month_groups_key_set: "fst ` set (month_groups data) = cell_of ` set data"
proof
  show "fst ` set (month_groups data) \<subseteq> cell_of ` set data"
    by (auto simp: month_groups_mem)
  show "cell_of ` set data \<subseteq> fst ` set (month_groups data)"
  proof
    fix k assume "k \<in> cell_of ` set data"
    then have "(k, records_of k data) \<in> set (month_groups data)"
      by (simp add: month_groups_mem)
    then show "k \<in> fst ` set (month_groups data)"
      by force
  qed
qed

lemma createAggregatedData_groups:
  "createAggregatedData data =
     map (\<lambda>(k, g). \<lparr>year = fst k, month = snd k,
                     smax = d3_max max_temperature g, smin = d3_min min_temperature g\<rparr>)
       (month_groups data)"
  by (simp add: createAggregatedData_def flatten_rollup_def d3_rollup_def month_groups_def
      map_concat comp_def case_prod_unfold)

lemma createDailyData_groups:
  "createDailyData data =
     map (\<lambda>(k, g). \<lparr>year = fst k, month = snd k, days = sort_key (\<lambda>d. valueOf (date d)) g\<rparr>)
       (month_groups data)"
  by (simp add: createDailyData_def flatten_rollup_def d3_rollup_def month_groups_def
      map_concat comp_def case_prod_unfold)

lemma cell_id_createAggregatedData:
  "map cell_id (createAggregatedData data) = map fst (month_groups data)"
  by (simp add: createAggregatedData_groups cell_id_def comp_def case_prod_unfold)

lemma cell_id_createDailyData:
  "map cell_id (createDailyData data) = map fst (month_groups data)"
  by (simp add: createDailyData_groups cell_id_def comp_def case_prod_unfold)


subsection \<open>maximum and minimum\<close>

lemma nums_nonempty:
  "xs \<noteq> [] \<Longrightarrow> list_all (\<lambda>x. is_number (f x)) xs \<Longrightarrow> nums f xs \<noteq> {}"
proof (cases xs)
  case Nil
  then show "xs \<noteq> [] \<Longrightarrow> ?thesis" by simp
next
  case (Cons x ys)
  assume "list_all (\<lambda>x. is_number (f x)) xs"
  then have "is_number (f x)" using Cons by simp
  then obtain a where "f x = Num a" by (cases "f x") simp_all
  then have "a \<in> nums f xs" using Cons by (auto simp: nums_def)
  then show ?thesis by blast
qed

lemma d3_max_is_maximum:
  assumes "xs \<noteq> []" and "list_all (\<lambda>x. is_number (f x)) xs"
  shows "is_maximum (d3_max f xs) (map f xs)"
proof -
  let ?M = "Max (nums f xs)"
  have ne: "nums f xs \<noteq> {}" using assms by (rule nums_nonempty)
  have eq: "d3_max f xs = Num ?M" using ne by (simp add: d3_max_eq)
  have "?M \<in> nums f xs" using ne finite_nums by (rule_tac Max_in)
  then have mem: "Num ?M \<in> set (map f xs)" by (force simp: nums_def)
  have "js_ge (Num ?M) (f x)" if "x \<in> set xs" for x
  proof -
    have "is_number (f x)" using assms(2) that by (simp add: list_all_iff)
    then obtain a where a: "f x = Num a" by (cases "f x") simp_all
    then have "a \<in> nums f xs" using that by (auto simp: nums_def)
    then have "a \<le> ?M" using finite_nums by (rule_tac Max_ge)
    then show ?thesis by (simp add: a)
  qed
  then show ?thesis using mem by (simp add: is_maximum_def eq list_all_iff)
qed

lemma d3_min_is_minimum:
  assumes "xs \<noteq> []" and "list_all (\<lambda>x. is_number (f x)) xs"
  shows "is_minimum (d3_min f xs) (map f xs)"
proof -
  let ?M = "Min (nums f xs)"
  have ne: "nums f xs \<noteq> {}" using assms by (rule nums_nonempty)
  have eq: "d3_min f xs = Num ?M" using ne by (simp add: d3_min_eq)
  have "?M \<in> nums f xs" using ne finite_nums by (rule_tac Min_in)
  then have mem: "Num ?M \<in> set (map f xs)" by (force simp: nums_def)
  have "js_ge (f x) (Num ?M)" if "x \<in> set xs" for x
  proof -
    have "is_number (f x)" using assms(2) that by (simp add: list_all_iff)
    then obtain a where a: "f x = Num a" by (cases "f x") simp_all
    then have "a \<in> nums f xs" using that by (auto simp: nums_def)
    then have "?M \<le> a" using finite_nums by (rule_tac Min_le)
    then show ?thesis by (simp add: a)
  qed
  then show ?thesis using mem by (simp add: is_minimum_def eq list_all_iff)
qed

lemma records_of_nonempty: "k \<in> cell_of ` set data \<Longrightarrow> records_of k data \<noteq> []"
  by (auto simp: records_of_def filter_empty_conv)

lemma records_of_daily_record:
  "list_all daily_record data \<Longrightarrow> list_all daily_record (records_of k data)"
  by (simp add: records_of_def list_all_iff)

lemma summary_mem:
  assumes "s \<in> set (createAggregatedData data)"
  shows "cell_id s \<in> cell_of ` set data \<and>
         smax s = d3_max max_temperature (records_of (cell_id s) data) \<and>
         smin s = d3_min min_temperature (records_of (cell_id s) data)"
proof -
  from assms obtain k g where kg: "(k, g) \<in> set (month_groups data)"
    and s: "s = \<lparr>year = fst k, month = snd k,
                  smax = d3_max max_temperature g, smin = d3_min min_temperature g\<rparr>"
    by (auto simp: createAggregatedData_groups)
  have "cell_id s = k" by (simp add: s cell_id_def)
  then show ?thesis using kg by (simp add: s month_groups_mem)
qed

lemma bucket_mem:
  assumes "b \<in> set (createDailyData data)"
  shows "cell_id b \<in> cell_of ` set data \<and>
         days b = sort_key (\<lambda>d. valueOf (date d)) (records_of (cell_id b) data)"
proof -
  from assms obtain k g where kg: "(k, g) \<in> set (month_groups data)"
    and b: "b = \<lparr>year = fst k, month = snd k, days = sort_key (\<lambda>d. valueOf (date d)) g\<rparr>"
    by (auto simp: createDailyData_groups)
  have "cell_id b = k" by (simp add: b cell_id_def)
  then show ?thesis using kg by (simp add: b month_groups_mem)
qed

lemma scenario_summaries:
  "createAggregatedData scenario_rows =
     [\<lparr>year = 2020, month = 1, smax = Num 15, smin = Num (- 1)\<rparr>,
      \<lparr>year = 2020, month = 2, smax = Num 5, smin = Num (- 5)\<rparr>]"
  by (simp add: createAggregatedData_def flatten_rollup_def d3_rollup_def regroup_def
      scenario_rows_def row_def year_of_def month_of_def d3_max_def d3_min_def
      d3_max_step_def d3_min_step_def)

section \<open>The aggregator's summaries and buckets\<close>

text \<open>
  Claim C1. For every sequence of Daily Records, \<open>createAggregatedData\<close> yields exactly one
  summary per (year, month) pair that occurs in the input: the pairs of the summaries
  are pairwise distinct and are the pairs of the records. The \<open>smax\<close> of a summary is the
  maximum of \<open>max_temperature\<close> over the records of its pair, its \<open>smin\<close> the minimum of
  \<open>min_temperature\<close> over them. On the three rows of the scenario the result is the two
  summaries (2020, 1, 15, -1) and (2020, 2, 5, -5).
\<close>

theorem createAggregatedData_summaries:
  assumes "list_all daily_record data"
  shows "distinct (map cell_id (createAggregatedData data)) \<and>
         set (map cell_id (createAggregatedData data)) = cell_of ` set data \<and>
         (\<forall>s\<in>set (createAggregatedData data).
            is_maximum (smax s) (map max_temperature (records_of (cell_id s) data)) \<and>
            is_minimum (smin s) (map min_temperature (records_of (cell_id s) data))) \<and>
         createAggregatedData scenario_rows =
           [\<lparr>year = 2020, month = 1, smax = Num 15, smin = Num (- 1)\<rparr>,
            \<lparr>year = 2020, month = 2, smax = Num 5, smin = Num (- 5)\<rparr>]"
proof -
  have "is_maximum (smax s) (map max_temperature (records_of (cell_id s) data)) \<and>
        is_minimum (smin s) (map min_temperature (records_of (cell_id s) data))"
    if "s \<in> set (createAggregatedData data)" for s
  proof -
    let ?g = "records_of (cell_id s) data"
    have s: "cell_id s \<in> cell_of ` set data" "smax s = d3_max max_temperature ?g"
      "smin s = d3_min min_temperature ?g"
      using summary_mem [OF that] by simp_all
    have ne: "?g \<noteq> []" using s(1) by (rule records_of_nonempty)
    have "list_all daily_record ?g" using assms by (rule records_of_daily_record)
    then have "list_all (\<lambda>d. is_number (max_temperature d)) ?g"
      and "list_all (\<lambda>d. is_number (min_temperature d)) ?g"
      by (simp_all add: list_all_iff daily_record_def)
    then show ?thesis
      using ne by (simp add: s d3_max_is_maximum d3_min_is_minimum)
  qed
  moreover have "set (map cell_id (createAggregatedData data)) = cell_of ` set data"
    by (simp add: cell_id_createAggregatedData month_groups_key_set)
  ultimately show ?thesis
    by (simp add: cell_id_createAggregatedData month_groups_distinct scenario_summaries)
qed


theorem createAggregatedData_summaries_witness:
  "list_all daily_record witness_rows \<and>
   createAggregatedData witness_rows =
     [\<lparr>year = 2019, month = 12, smax = Num 7, smin = Num (- 2)\<rparr>,
      \<lparr>year = 2020, month = 1, smax = Num 10, smin = Num 2\<rparr>] \<and>
   records_of (2019, 12) witness_rows = [row 2019 12 31 3 (-2), row 2019 12 1 7 1] \<and>
   is_maximum (Num 7) (map max_temperature (records_of (2019, 12) witness_rows)) \<and>
   is_minimum (Num (- 2)) (map min_temperature (records_of (2019, 12) witness_rows))"
  using createAggregatedData_summaries [of witness_rows]
  by (simp add: createAggregatedData_def flatten_rollup_def d3_rollup_def regroup_def
      witness_rows_def row_def year_of_def month_of_def d3_max_def d3_min_def
      d3_max_step_def d3_min_step_def daily_record_def records_of_def cell_of_def
      is_maximum_def is_minimum_def cell_id_def)

text \<open>
  Claim C2. For every sequence of records, \<open>createDailyData\<close> yields one bucket per
  (year, month) pair that occurs in the input, none of them empty; the days of a bucket
  are sorted non-decreasing by date and are, as a multiset, exactly the input records of
  the bucket's pair.
\<close>

theorem createDailyData_buckets:
  "distinct (map cell_id (createDailyData data)) \<and>
   set (map cell_id (createDailyData data)) = cell_of ` set data \<and>
   (\<forall>b\<in>set (createDailyData data).
      days b \<noteq> [] \<and>
      sorted (map (\<lambda>d. valueOf (date d)) (days b)) \<and>
      mset (days b) = filter_mset (\<lambda>d. cell_of d = cell_id b) (mset data))"
proof -
  have "days b \<noteq> [] \<and> sorted (map (\<lambda>d. valueOf (date d)) (days b)) \<and>
        mset (days b) = filter_mset (\<lambda>d. cell_of d = cell_id b) (mset data)"
    if "b \<in> set (createDailyData data)" for b
  proof -
    let ?g = "records_of (cell_id b) data"
    have b: "cell_id b \<in> cell_of ` set data" "days b = sort_key (\<lambda>d. valueOf (date d)) ?g"
      using bucket_mem [OF that] by simp_all
    have "?g \<noteq> []" using b(1) by (rule records_of_nonempty)
    moreover have "length (days b) = length ?g"
      by (simp add: b(2))
    ultimately have "days b \<noteq> []"
      by auto
    moreover have "mset (days b) = filter_mset (\<lambda>d. cell_of d = cell_id b) (mset data)"
      by (simp add: b(2) records_of_def)
    ultimately show ?thesis
      by (simp add: b(2))
  qed
  moreover have "set (map cell_id (createDailyData data)) = cell_of ` set data"
    by (simp add: cell_id_createDailyData month_groups_key_set)
  ultimately show ?thesis
    by (simp add: cell_id_createDailyData month_groups_distinct)
qed

theorem createDailyData_buckets_witness:
  "createDailyData witness_rows =
     [\<lparr>year = 2019, month = 12, days = [row 2019 12 1 7 1, row 2019 12 31 3 (-2)]\<rparr>,
      \<lparr>year = 2020, month = 1, days = [row 2020 1 15 10 2]\<rparr>] \<and>
   sorted (map (\<lambda>d. valueOf (date d)) [row 2019 12 1 7 1, row 2019 12 31 3 (-2)]) \<and>
   mset [row 2019 12 1 7 1, row 2019 12 31 3 (-2)] =
     filter_mset (\<lambda>d. cell_of d = (2019, 12)) (mset witness_rows)"
  using createDailyData_buckets [of witness_rows]
  by (simp add: createDailyData_def flatten_rollup_def d3_rollup_def regroup_def
      witness_rows_def row_def year_of_def month_of_def valueOf_def cell_of_def cell_id_def)

section \<open>The retained window\<close>

lemma nums_years: "nums (\<lambda>d. Num (year_of d)) data = year_of ` set data"
  by (auto simp: nums_def)

lemma maxYear_eq: "data \<noteq> [] \<Longrightarrow> maxYear data = Num (Max (year_of ` set data))"
  by (simp add: maxYear_def d3_max_eq nums_years)

lemma processedData_updateMatrix1 [simp]: "processedData (updateMatrix1 t h) = processedData h"
  by (simp add: updateMatrix1_def)

lemma processedData_updateLegend1 [simp]: "processedData (updateLegend1 t h) = processedData h"
  by (simp add: updateLegend1_def)

lemma processedData_createYearlyHeatmap [simp]: "processedData (createYearlyHeatmap pd) = pd"
  by (simp add: createYearlyHeatmap_def)

lemma fields_updateMatrix2 [simp]:
  "processedDailyData (updateMatrix2 t h) = processedDailyData h"
  "filteredData (updateMatrix2 t h) = filteredData h"
  "globalMiniExtent (updateMatrix2 t h) = globalMiniExtent h"
  "legendScale_domain2 (updateMatrix2 t h) = legendScale_domain2 h"
  by (simp_all add: updateMatrix2_def Let_def)

lemma fields_updateLegend2 [simp]:
  "processedDailyData (updateLegend2 t h) = processedDailyData h"
  "filteredData (updateLegend2 t h) = filteredData h"
  "globalMiniExtent (updateLegend2 t h) = globalMiniExtent h"
  "cells (updateLegend2 t h) = cells h"
  by (simp_all add: updateLegend2_def)

lemma fields_createRecentYearsHeatmap [simp]:
  "processedDailyData (createRecentYearsHeatmap pdd fd) = pdd"
  "filteredData (createRecentYearsHeatmap pdd fd) = fd"
  "globalMiniExtent (createRecentYearsHeatmap pdd fd) =
     (d3_min min_temperature fd, d3_max max_temperature fd)"
  by (simp_all add: createRecentYearsHeatmap_def)

text \<open>
  Claim C3. For every non-empty list of records with maximum year \<open>Yn\<close>, the filtered list
  that \<open>initVisualizations\<close> hands to \<open>createDailyData\<close> and to the recent-years heatmap
  holds exactly the records (in input order, with their multiplicity) whose year lies
  in \<open>[Yn - 9, Yn]\<close>, while the first heatmap is built from the summaries of the unfiltered
  list. When every record is of the year 2015, the years retained are 2015 alone.
\<close>

theorem recentYears_window:
  assumes "data \<noteq> []"
  shows "recentYears data =
           filter (\<lambda>d. Max (year_of ` set data) - 9 \<le> year_of d \<and>
                        year_of d \<le> Max (year_of ` set data)) data \<and>
         filteredData (snd (initVisualizations data)) = recentYears data \<and>
         processedDailyData (snd (initVisualizations data)) = createDailyData (recentYears data) \<and>
         processedData (fst (initVisualizations data)) = createAggregatedData data \<and>
         ((\<forall>d\<in>set data. year_of d = 2015) \<longrightarrow> year_of ` set (recentYears data) = {2015})"
proof -
  let ?M = "Max (year_of ` set data)"
  have le: "year_of d \<le> ?M" if "d \<in> set data" for d
    using that by simp
  have eq: "recentYears data = filter (\<lambda>d. ?M - 9 \<le> year_of d) data"
    using assms by (simp add: recentYears_def maxYear_eq)
  have w: "recentYears data = filter (\<lambda>d. ?M - 9 \<le> year_of d \<and> year_of d \<le> ?M) data"
    unfolding eq by (rule filter_cong) (auto simp: le)
  have "year_of ` set (recentYears data) = {2015}" if all: "\<forall>d\<in>set data. year_of d = 2015"
  proof -
    have "year_of ` set data = {2015}"
      using all assms by (cases data) auto
    then have "?M = 2015" by simp
    then have "recentYears data = data"
      unfolding eq using all by simp
    then show ?thesis
      using \<open>year_of ` set data = {2015}\<close> by simp
  qed
  then show ?thesis
    using w by (simp add: initVisualizations_def Let_def)
qed

theorem recentYears_window_witness:
  "window_rows \<noteq> [] \<and>
   recentYears window_rows = [row 2020 3 1 9 4, row 2011 7 2 30 18, row 2015 1 9 2 (-3)] \<and>
   recentYears [row 2015 6 1 20 10, row 2015 1 9 2 (-3)] = [row 2015 6 1 20 10, row 2015 1 9 2 (-3)] \<and>
   year_of ` set (recentYears [row 2015 6 1 20 10, row 2015 1 9 2 (-3)]) = {2015}"
  using recentYears_window [of window_rows]
    recentYears_window [of "[row 2015 6 1 20 10, row 2015 1 9 2 (-3)]"]
  by (simp add: recentYears_def maxYear_def d3_max_def d3_max_step_def window_rows_def
      row_def year_of_def)

section \<open>Extents of the summaries and of the raw records\<close>

lemma Max_cofinal:
  fixes S T :: "'a::linorder set"
  assumes "finite S" "T \<subseteq> S" "\<And>a. a \<in> S \<Longrightarrow> \<exists>b\<in>T. a \<le> b"
  shows "(T = {} \<longleftrightarrow> S = {}) \<and> (S \<noteq> {} \<longrightarrow> Max T = Max S)"
proof -
  have fin: "finite T" using assms(1,2) by (rule rev_finite_subset)
  have e: "T = {} \<longleftrightarrow> S = {}" using assms(2,3) by blast
  have "Max T = Max S" if "S \<noteq> {}"
  proof (rule antisym)
    have "T \<noteq> {}" using that e by simp
    then have "Max T \<in> S" using fin assms(2) Max_in by blast
    then show "Max T \<le> Max S" using assms(1) by simp
    have "Max S \<in> S" using assms(1) that by simp
    then obtain b where "b \<in> T" "Max S \<le> b" using assms(3) by blast
    then show "Max S \<le> Max T" using fin by (meson Max_ge order_trans)
  qed
  then show ?thesis using e by simp
qed

lemma Min_coinitial:
  fixes S T :: "'a::linorder set"
  assumes "finite S" "T \<subseteq> S" "\<And>a. a \<in> S \<Longrightarrow> \<exists>b\<in>T. b \<le> a"
  shows "(T = {} \<longleftrightarrow> S = {}) \<and> (S \<noteq> {} \<longrightarrow> Min T = Min S)"
proof -
  have fin: "finite T" using assms(1,2) by (rule rev_finite_subset)
  have e: "T = {} \<longleftrightarrow> S = {}" using assms(2,3) by blast
  have "Min T = Min S" if "S \<noteq> {}"
  proof (rule antisym)
    have "T \<noteq> {}" using that e by simp
    then have "Min T \<in> S" using fin assms(2) Min_in by blast
    then show "Min S \<le> Min T" using assms(1) by simp
    have "Min S \<in> S" using assms(1) that by simp
    then obtain b where "b \<in> T" "b \<le> Min S" using assms(3) by blast
    then show "Min T \<le> Min S" using fin by (meson Min_le order_trans)
  qed
  then show ?thesis using e by simp
qed

lemma summary_of_cell:
  assumes "k \<in> cell_of ` set data"
  shows "\<lparr>year = fst k, month = snd k, smax = d3_max max_temperature (records_of k data),
          smin = d3_min min_temperature (records_of k data)\<rparr> \<in> set (createAggregatedData data)"
proof -
  have "(k, records_of k data) \<in> set (month_groups data)"
    using assms by (simp add: month_groups_mem)
  then show ?thesis
    unfolding createAggregatedData_groups by force
qed

lemma nums_records_of: "nums f (records_of k data) \<subseteq> nums f data"
  by (auto simp: nums_def records_of_def)

lemma d3_max_summaries:
  "d3_max smax (createAggregatedData data) = d3_max max_temperature data"
proof -
  let ?S = "nums max_temperature data" and ?T = "nums smax (createAggregatedData data)"
  have sub: "?T \<subseteq> ?S"
  proof
    fix a assume "a \<in> ?T"
    then obtain s where s: "s \<in> set (createAggregatedData data)" "smax s = Num a"
      by (auto simp: nums_def)
    let ?N = "nums max_temperature (records_of (cell_id s) data)"
    have "d3_max max_temperature (records_of (cell_id s) data) = Num a"
      using summary_mem [OF s(1)] s(2) by simp
    then have "?N \<noteq> {}" "a = Max ?N"
      by (simp_all add: d3_max_eq split: if_splits)
    then have "a \<in> ?N" using finite_nums Max_in by blast
    then show "a \<in> ?S" by (rule subsetD [OF nums_records_of])
  qed
  have cof: "\<exists>b\<in>?T. a \<le> b" if "a \<in> ?S" for a
  proof -
    from that obtain d where d: "d \<in> set data" "max_temperature d = Num a"
      by (auto simp: nums_def)
    let ?k = "cell_of d"
    let ?N = "nums max_temperature (records_of ?k data)"
    have a: "a \<in> ?N" using d by (auto simp: nums_def records_of_def)
    then have "d3_max max_temperature (records_of ?k data) = Num (Max ?N)"
      by (auto simp: d3_max_eq)
    moreover have "?k \<in> cell_of ` set data" using d(1) by simp
    ultimately have "Max ?N \<in> ?T"
      using summary_of_cell [of ?k data] by (force simp: nums_def)
    moreover have "a \<le> Max ?N" using a finite_nums by (rule_tac Max_ge)
    ultimately show ?thesis by blast
  qed
  have "(?T = {} \<longleftrightarrow> ?S = {}) \<and> (?S \<noteq> {} \<longrightarrow> Max ?T = Max ?S)"
    using finite_nums sub cof by (rule Max_cofinal)
  then show ?thesis
    by (simp add: d3_max_eq)
qed

lemma d3_min_summaries:
  "d3_min smin (createAggregatedData data) = d3_min min_temperature data"
proof -
  let ?S = "nums min_temperature data" and ?T = "nums smin (createAggregatedData data)"
  have sub: "?T \<subseteq> ?S"
  proof
    fix a assume "a \<in> ?T"
    then obtain s where s: "s \<in> set (createAggregatedData data)" "smin s = Num a"
      by (auto simp: nums_def)
    let ?N = "nums min_temperature (records_of (cell_id s) data)"
    have "d3_min min_temperature (records_of (cell_id s) data) = Num a"
      using summary_mem [OF s(1)] s(2) by simp
    then have "?N \<noteq> {}" "a = Min ?N"
      by (simp_all add: d3_min_eq split: if_splits)
    then have "a \<in> ?N" using finite_nums Min_in by blast
    then show "a \<in> ?S" by (rule subsetD [OF nums_records_of])
  qed
  have cof: "\<exists>b\<in>?T. b \<le> a" if "a \<in> ?S" for a
  proof -
    from that obtain d where d: "d \<in> set data" "min_temperature d = Num a"
      by (auto simp: nums_def)
    let ?k = "cell_of d"
    let ?N = "nums min_temperature (records_of ?k data)"
    have a: "a \<in> ?N" using d by (auto simp: nums_def records_of_def)
    then have "d3_min min_temperature (records_of ?k data) = Num (Min ?N)"
      by (auto simp: d3_min_eq)
    moreover have "?k \<in> cell_of ` set data" using d(1) by simp
    ultimately have "Min ?N \<in> ?T"
      using summary_of_cell [of ?k data] by (force simp: nums_def)
    moreover have "Min ?N \<le> a" using a finite_nums by (rule_tac Min_le)
    ultimately show ?thesis by blast
  qed
  have "(?T = {} \<longleftrightarrow> ?S = {}) \<and> (?S \<noteq> {} \<longrightarrow> Min ?T = Min ?S)"
    using finite_nums sub cof by (rule Min_coinitial)
  then show ?thesis
    by (simp add: d3_min_eq)
qed

lemma colorScale_domain_updateMatrix1 [simp]:
  "colorScale_domain (updateMatrix1 t h) = colorScale_domain h"
  by (simp add: updateMatrix1_def)

lemma colorScale_domain_updateLegend1 [simp]:
  "colorScale_domain (updateLegend1 t h) = colorScale_domain h"
  by (simp add: updateLegend1_def)

lemma colorScale_domain_createYearlyHeatmap:
  "colorScale_domain (createYearlyHeatmap pd) = (d3_min smin pd, d3_max smax pd)"
  by (simp add: createYearlyHeatmap_def)

text \<open>
  Claim C4. The extent the first heatmap derives from the summaries (the least \<open>smin\<close> and
  the greatest \<open>smax\<close>, which it makes the domain of its colour scale) is the extent that
  \<open>d3.min\<close> and \<open>d3.max\<close> compute over the raw records; for a non-empty list of Daily Records
  these are the minimum of \<open>min_temperature\<close> and the maximum of \<open>max_temperature\<close>.
\<close>

theorem extent_roundtrip:
  "d3_min smin (createAggregatedData data) = d3_min min_temperature data \<and>
   d3_max smax (createAggregatedData data) = d3_max max_temperature data \<and>
   colorScale_domain (createYearlyHeatmap (createAggregatedData data)) =
     (d3_min min_temperature data, d3_max max_temperature data) \<and>
   (data \<noteq> [] \<and> list_all daily_record data \<longrightarrow>
      is_minimum (d3_min smin (createAggregatedData data)) (map min_temperature data) \<and>
      is_maximum (d3_max smax (createAggregatedData data)) (map max_temperature data))"
proof -
  have "is_minimum (d3_min min_temperature data) (map min_temperature data) \<and>
        is_maximum (d3_max max_temperature data) (map max_temperature data)"
    if "data \<noteq> []" "list_all daily_record data"
  proof -
    have "list_all (\<lambda>d. is_number (max_temperature d)) data"
      and "list_all (\<lambda>d. is_number (min_temperature d)) data"
      using that(2) by (simp_all add: list_all_iff daily_record_def)
    then show ?thesis
      using that(1) by (simp add: d3_max_is_maximum d3_min_is_minimum)
  qed
  then show ?thesis
    by (simp add: d3_max_summaries d3_min_summaries colorScale_domain_createYearlyHeatmap)
qed

theorem extent_roundtrip_witness:
  "witness_rows \<noteq> [] \<and> list_all daily_record witness_rows \<and>
   d3_min smin (createAggregatedData witness_rows) = Num (- 2) \<and>
   d3_min min_temperature witness_rows = Num (- 2) \<and>
   d3_max smax (createAggregatedData witness_rows) = Num 10 \<and>
   d3_max max_temperature witness_rows = Num 10 \<and>
   is_minimum (Num (- 2)) (map min_temperature witness_rows) \<and>
   is_maximum (Num 10) (map max_temperature witness_rows)"
  using extent_roundtrip [of witness_rows]
  by (simp add: createAggregatedData_def flatten_rollup_def d3_rollup_def regroup_def
      witness_rows_def row_def year_of_def month_of_def d3_max_def d3_min_def
      d3_max_step_def d3_min_step_def daily_record_def is_maximum_def is_minimum_def)

section \<open>The two domains of the aggregated heatmap\<close>

lemma legendScale_domain_updateLegend1:
  "legendScale_domain (updateLegend1 t h) =
     (if t = ''max'' then (d3_min smax (processedData h), d3_max smax (processedData h))
      else (d3_min smin (processedData h), d3_max smin (processedData h)))"
  by (simp add: updateLegend1_def getExtent_def d3_extent_eq)

lemma call1_frame:
  "processedData (call1 h c) = processedData h \<and> colorScale_domain (call1 h c) = colorScale_domain h"
  by (cases c) simp_all

lemma calls1_frame:
  "processedData (foldl call1 h cs) = processedData h \<and>
   colorScale_domain (foldl call1 h cs) = colorScale_domain h"
  by (induction cs arbitrary: h) (simp_all add: call1_frame)

lemma is_maximumD: "is_maximum m vs \<Longrightarrow> m \<in> set vs \<and> (\<forall>v\<in>set vs. js_ge m v)"
  by (simp add: is_maximum_def list_all_iff)

lemma is_minimumD: "is_minimum m vs \<Longrightarrow> m \<in> set vs \<and> (\<forall>v\<in>set vs. js_ge v m)"
  by (simp add: is_minimum_def list_all_iff)

lemma summary_extremes:
  assumes "list_all daily_record data" and "s \<in> set (createAggregatedData data)"
  shows "records_of (cell_id s) data \<noteq> [] \<and>
         is_maximum (smax s) (map max_temperature (records_of (cell_id s) data)) \<and>
         is_minimum (smin s) (map min_temperature (records_of (cell_id s) data))"
proof -
  let ?g = "records_of (cell_id s) data"
  have s: "cell_id s \<in> cell_of ` set data" "smax s = d3_max max_temperature ?g"
    "smin s = d3_min min_temperature ?g"
    using summary_mem [OF assms(2)] by simp_all
  have ne: "?g \<noteq> []" using s(1) by (rule records_of_nonempty)
  have "list_all daily_record ?g" using assms(1) by (rule records_of_daily_record)
  then have "list_all (\<lambda>d. is_number (max_temperature d)) ?g"
    and "list_all (\<lambda>d. is_number (min_temperature d)) ?g"
    by (simp_all add: list_all_iff daily_record_def)
  then show ?thesis
    using ne by (simp add: s d3_max_is_maximum d3_min_is_minimum)
qed

lemma is_number_js_ge: "js_ge a b \<Longrightarrow> is_number a \<and> is_number b"
  by (cases a; cases b) simp_all

lemma js_chain_ne: "js_ge a b \<Longrightarrow> js_lt c b \<Longrightarrow> js_ge c d \<Longrightarrow> a \<noteq> d"
  by (cases a; cases b; cases c; cases d) auto

lemma createAggregatedData_nonempty: "data \<noteq> [] \<Longrightarrow> createAggregatedData data \<noteq> []"
proof -
  assume "data \<noteq> []"
  moreover have "set (map cell_id (createAggregatedData data)) = cell_of ` set data"
    by (simp add: cell_id_createAggregatedData month_groups_key_set)
  ultimately show ?thesis by auto
qed

lemma summary_picks:
  assumes "list_all daily_record data" and "s \<in> set (createAggregatedData data)"
  obtains d where "d \<in> set data" "js_ge (smax s) (max_temperature d)"
    "js_ge (min_temperature d) (smin s)"
proof -
  let ?g = "records_of (cell_id s) data"
  from summary_extremes [OF assms] have ne: "?g \<noteq> []"
    and mx: "is_maximum (smax s) (map max_temperature ?g)"
    and mn: "is_minimum (smin s) (map min_temperature ?g)"
    by simp_all
  from ne obtain d where d: "d \<in> set ?g" by (cases ?g) auto
  then have "d \<in> set data" by (simp add: records_of_def)
  moreover have "js_ge (smax s) (max_temperature d)"
    using is_maximumD [OF mx] d by simp
  moreover have "js_ge (min_temperature d) (smin s)"
    using is_minimumD [OF mn] d by simp
  ultimately show ?thesis by (rule that)
qed

lemma domains_differ:
  assumes ne: "data \<noteq> []" and num: "list_all daily_record data"
    and strict: "list_all (\<lambda>d. js_lt (min_temperature d) (max_temperature d)) data"
  shows "d3_min smax (createAggregatedData data) \<noteq> d3_min smin (createAggregatedData data) \<and>
         d3_max smin (createAggregatedData data) \<noteq> d3_max smax (createAggregatedData data)"
proof -
  let ?pd = "createAggregatedData data"
  have pd: "?pd \<noteq> []" using ne by (rule createAggregatedData_nonempty)
  have nm: "is_number (smax s) \<and> is_number (smin s)" if "s \<in> set ?pd" for s
  proof -
    from summary_picks [OF num that] obtain d :: daily where
      d: "js_ge (smax s) (max_temperature d)" "js_ge (min_temperature d) (smin s)" by blast
    show ?thesis
      using is_number_js_ge [OF d(1)] is_number_js_ge [OF d(2)] by simp
  qed
  have nmax: "list_all (\<lambda>s. is_number (smax s)) ?pd"
    and nmin: "list_all (\<lambda>s. is_number (smin s)) ?pd"
    using nm by (simp_all add: list_all_iff)
  have cols: "list_all (\<lambda>d. is_number (max_temperature d)) data"
    "list_all (\<lambda>d. is_number (min_temperature d)) data"
    using num by (simp_all add: list_all_iff daily_record_def)
  have gmin: "is_minimum (d3_min smin ?pd) (map min_temperature data)"
    unfolding d3_min_summaries using ne cols(2) by (rule d3_min_is_minimum)
  have gmax: "is_maximum (d3_max smax ?pd) (map max_temperature data)"
    unfolding d3_max_summaries using ne cols(1) by (rule d3_max_is_maximum)
  have "d3_min smax ?pd \<noteq> d3_min smin ?pd"
  proof -
    have "d3_min smax ?pd \<in> set (map smax ?pd)"
      using is_minimumD [OF d3_min_is_minimum [OF pd nmax]] by simp
    then obtain s where s: "s \<in> set ?pd" "d3_min smax ?pd = smax s" by auto
    from summary_picks [OF num s(1)] obtain d where d: "d \<in> set data"
      "js_ge (smax s) (max_temperature d)" by blast
    have lt: "js_lt (min_temperature d) (max_temperature d)"
      using strict d(1) by (simp add: list_all_iff)
    have ge: "js_ge (min_temperature d) (d3_min smin ?pd)"
      using is_minimumD [OF gmin] d(1) by simp
    show ?thesis
      using js_chain_ne [OF d(2) lt ge] by (simp add: s(2))
  qed
  moreover have "d3_max smin ?pd \<noteq> d3_max smax ?pd"
  proof -
    have "d3_max smin ?pd \<in> set (map smin ?pd)"
      using is_maximumD [OF d3_max_is_maximum [OF pd nmin]] by simp
    then obtain s where s: "s \<in> set ?pd" "d3_max smin ?pd = smin s" by auto
    from summary_picks [OF num s(1)] obtain d where d: "d \<in> set data"
      "js_ge (min_temperature d) (smin s)" by blast
    have lt: "js_lt (min_temperature d) (max_temperature d)"
      using strict d(1) by (simp add: list_all_iff)
    have "js_ge (d3_max smax ?pd) (max_temperature d)"
      using is_maximumD [OF gmax] d(1) by simp
    then have "d3_max smax ?pd \<noteq> smin s"
      using lt d(2) by (rule js_chain_ne)
    then show ?thesis
      by (simp add: s(2))
  qed
  ultimately show ?thesis by simp
qed

text \<open>
  Claim C5, as stated, fails on one day with equal temperatures: after
  \<open>updateLegend\<close> (for either field) the legend's domain is the colour scale's domain.
\<close>

theorem yearly_domains_coincide:
  "legendScale_domain (updateLegend1 ''max'' (createYearlyHeatmap (createAggregatedData flat_rows))) =
     colorScale_domain (updateLegend1 ''max'' (createYearlyHeatmap (createAggregatedData flat_rows))) \<and>
   legendScale_domain (fst (on_change ''min'' (initVisualizations flat_rows))) =
     colorScale_domain (fst (on_change ''min'' (initVisualizations flat_rows))) \<and>
   colorScale_domain (fst (on_change ''min'' (initVisualizations flat_rows))) = (Num 5, Num 5)"
  by (simp add: legendScale_domain_updateLegend1 colorScale_domain_createYearlyHeatmap
      on_change_def initVisualizations_def Let_def
      createAggregatedData_def flatten_rollup_def d3_rollup_def regroup_def
      flat_rows_def row_def year_of_def month_of_def d3_max_def d3_min_def
      d3_max_step_def d3_min_step_def)

text \<open>
  Claim C5, amended. The domain of the colour scale of the aggregated heatmap is set at
  construction to (least \<open>smin\<close>, greatest \<open>smax\<close>) of the summaries and no sequence of
  \<open>updateMatrix\<close> and \<open>updateLegend\<close> calls changes it; every \<open>updateLegend\<close> call sets the
  legend's domain to the extent of the chosen field over the summaries. For the summaries
  of a non-empty list of Daily Records each of which has \<open>min_temperature < max_temperature\<close>,
  the two domains differ after every such call.
\<close>

theorem yearly_domains:
  "colorScale_domain (foldl call1 (createYearlyHeatmap pd) cs) = (d3_min smin pd, d3_max smax pd) \<and>
   legendScale_domain (updateLegend1 t (foldl call1 (createYearlyHeatmap pd) cs)) =
     (if t = ''max'' then (d3_min smax pd, d3_max smax pd) else (d3_min smin pd, d3_max smin pd)) \<and>
   (data \<noteq> [] \<and> list_all daily_record data \<and>
    list_all (\<lambda>d. js_lt (min_temperature d) (max_temperature d)) data \<longrightarrow>
      legendScale_domain
        (updateLegend1 t (foldl call1 (createYearlyHeatmap (createAggregatedData data)) cs)) \<noteq>
      colorScale_domain
        (updateLegend1 t (foldl call1 (createYearlyHeatmap (createAggregatedData data)) cs)))"
proof -
  have frame: "colorScale_domain (foldl call1 (createYearlyHeatmap p) cs) = (d3_min smin p, d3_max smax p)"
    "processedData (foldl call1 (createYearlyHeatmap p) cs) = p" for p
    by (simp_all add: calls1_frame colorScale_domain_createYearlyHeatmap)
  show ?thesis
    using domains_differ [of data]
    by (auto simp: frame legendScale_domain_updateLegend1)
qed

theorem yearly_domains_witness:
  "witness_rows \<noteq> [] \<and> list_all daily_record witness_rows \<and>
   list_all (\<lambda>d. js_lt (min_temperature d) (max_temperature d)) witness_rows \<and>
   colorScale_domain
     (foldl call1 (createYearlyHeatmap (createAggregatedData witness_rows))
        [UpdateMatrix ''min'', UpdateLegend ''min'']) = (Num (- 2), Num 10) \<and>
   legendScale_domain
     (updateLegend1 ''min'' (foldl call1 (createYearlyHeatmap (createAggregatedData witness_rows))
        [UpdateMatrix ''min''])) = (Num (- 2), Num 2) \<and>
   legendScale_domain
     (updateLegend1 ''max'' (foldl call1 (createYearlyHeatmap (createAggregatedData witness_rows))
        [UpdateMatrix ''max''])) = (Num 7, Num 10)"
proof -
  have pd: "createAggregatedData witness_rows =
     [\<lparr>year = 2019, month = 12, smax = Num 7, smin = Num (- 2)\<rparr>,
      \<lparr>year = 2020, month = 1, smax = Num 10, smin = Num 2\<rparr>]"
    by (simp add: createAggregatedData_def flatten_rollup_def d3_rollup_def regroup_def
      witness_rows_def row_def year_of_def month_of_def d3_max_def d3_min_def
      d3_max_step_def d3_min_step_def)
  have hyp: "witness_rows \<noteq> [] \<and> list_all daily_record witness_rows \<and>
      list_all (\<lambda>d. js_lt (min_temperature d) (max_temperature d)) witness_rows"
    by (simp add: witness_rows_def row_def daily_record_def)
  show ?thesis
    using hyp
      yearly_domains [of "createAggregatedData witness_rows"
        "[UpdateMatrix ''min'', UpdateLegend ''min'']" "''min''" witness_rows]
      yearly_domains [of "createAggregatedData witness_rows" "[UpdateMatrix ''min'']" "''min''" witness_rows]
      yearly_domains [of "createAggregatedData witness_rows" "[UpdateMatrix ''max'']" "''max''" witness_rows]
    by (simp add: pd d3_max_def d3_min_def d3_max_step_def d3_min_step_def)
qed

section \<open>The keyed join\<close>

lemma bindKey_data:
  assumes "\<And>n d. datum (rebind n d) = d" and "\<And>d. datum (enter d) = d"
  shows "map datum (bindKey key datum rebind enter nodes ds) = ds"
  by (induction ds arbitrary: nodes) (simp_all add: assms split: option.split)

lemma filter_keys_other:
  assumes "k \<notin> key ` set (map datum ns)"
  shows "filter (\<lambda>n. key (datum n) \<noteq> k) ns = ns"
  using assms by (induction ns) auto

lemma bindKey_idem:
  assumes rb: "\<And>n d. datum (rebind n d) = d" and en: "\<And>d. datum (enter d) = d"
    and pd: "\<And>n. datum (paint n) = datum n"
    and pp: "\<And>n. paint (paint n) = paint n"
    and rbp: "\<And>n. rebind n (datum n) = n"
    and dist: "distinct (map key ds)"
  shows "map paint (bindKey key datum rebind enter
                      (map paint (bindKey key datum rebind enter nodes ds)) ds) =
         map paint (bindKey key datum rebind enter nodes ds)"
  using dist
proof (induction ds arbitrary: nodes)
  case Nil
  show ?case by simp
next
  case (Cons d ds)
  let ?B = "bindKey key datum rebind enter"
  have step: "\<exists>r N'. ?B nodes (d # ds) = r # ?B N' ds \<and> datum r = d"
    by (auto simp: rb en split: option.split)
  then obtain r N' where B: "?B nodes (d # ds) = r # ?B N' ds" and r: "datum r = d"
    by blast
  let ?R' = "map paint (?B N' ds)"
  have data: "map datum ?R' = ds"
    by (simp add: comp_def pd bindKey_data [of datum rebind enter, OF rb en])
  have "key d \<notin> key ` set (map datum ?R')"
    unfolding data using Cons.prems by auto
  then have flt: "filter (\<lambda>n. key (datum n) \<noteq> key d) ?R' = ?R'"
    by (rule filter_keys_other)
  have "rebind (paint r) d = paint r"
    using rbp [of "paint r"] by (simp add: pd r)
  then have B2: "?B (paint r # ?R') (d # ds) = paint r # ?B ?R' ds"
    by (simp add: pd r flt)
  have IH: "map paint (?B ?R' ds) = ?R'"
    using Cons.prems by (intro Cons.IH) simp
  have "map paint (?B (map paint (?B nodes (d # ds))) (d # ds)) =
        map paint (?B (paint r # ?R') (d # ds))"
    by (simp only: B list.map)
  also have "\<dots> = paint r # map paint (?B ?R' ds)"
    by (simp only: B2 list.map pp)
  also have "\<dots> = paint r # ?R'"
    by (simp only: IH)
  also have "\<dots> = map paint (?B nodes (d # ds))"
    by (simp only: B list.map)
  finally show ?case .
qed

section \<open>The recent-years heatmap\<close>

lemma cells_updateMatrix2:
  "cells (updateMatrix2 t h) =
     map (paint_cell t h)
       (bindKey cell_id cell_data (\<lambda>n d. n\<lparr>cell_data := d\<rparr>)
          (enter_cell (processedDailyData h)) (cells h) (processedDailyData h))"
  by (simp add: updateMatrix2_def Let_def paint_cell_def)

lemma cell_data_paint_cell [simp]: "cell_data (paint_cell t h n) = cell_data n"
  by (simp add: paint_cell_def)

lemma cell_data_updateMatrix2:
  "map cell_data (cells (updateMatrix2 t h)) = processedDailyData h"
proof -
  have "map cell_data (bindKey cell_id cell_data (\<lambda>n d. n\<lparr>cell_data := d\<rparr>)
          (enter_cell (processedDailyData h)) (cells h) (processedDailyData h)) = processedDailyData h"
    by (rule bindKey_data) (simp_all add: enter_cell_def)
  then show ?thesis
    by (simp add: cells_updateMatrix2 comp_def)
qed

lemma cell_updateMatrix2:
  assumes "c \<in> set (cells (updateMatrix2 t h))"
  shows "cell_data c \<in> set (processedDailyData h) \<and>
         cell_bg_fill c =
           Some (YlOrRd (getGlobalTempExtent (filteredData h) t) (aggVal t (cell_data c))) \<and>
         mini_line_max c = Some (mini_line max_temperature h (cell_data c)) \<and>
         mini_line_min c = Some (mini_line min_temperature h (cell_data c))"
proof -
  have "cell_data c \<in> set (map cell_data (cells (updateMatrix2 t h)))"
    using assms by simp
  then have "cell_data c \<in> set (processedDailyData h)"
    by (simp only: cell_data_updateMatrix2)
  moreover from assms obtain n where "c = paint_cell t h n"
    by (auto simp: cells_updateMatrix2)
  ultimately show ?thesis
    by (simp add: paint_cell_def)
qed

lemma call2_frame:
  "processedDailyData (call2 h c) = processedDailyData h \<and>
   filteredData (call2 h c) = filteredData h \<and>
   globalMiniExtent (call2 h c) = globalMiniExtent h"
  by (cases c) simp_all

lemma calls2_frame:
  "processedDailyData (foldl call2 h cs) = processedDailyData h \<and>
   filteredData (foldl call2 h cs) = filteredData h \<and>
   globalMiniExtent (foldl call2 h cs) = globalMiniExtent h"
  by (induction cs arbitrary: h) (simp_all add: call2_frame)

lemma heatmap2_after_fields:
  "processedDailyData (heatmap2_after data cs) = createDailyData (recentYears data)"
  "filteredData (heatmap2_after data cs) = recentYears data"
  "globalMiniExtent (heatmap2_after data cs) =
     (d3_min min_temperature (recentYears data), d3_max max_temperature (recentYears data))"
  by (simp_all add: heatmap2_after_def calls2_frame initVisualizations_def Let_def)

lemma recentYears_subset: "set (recentYears data) \<subseteq> set data"
  by (simp add: recentYears_def)

lemma recentYears_nonempty:
  assumes "data \<noteq> []"
  shows "recentYears data \<noteq> []"
proof -
  let ?M = "Max (year_of ` set data)"
  have "?M \<in> year_of ` set data"
    using assms by (intro Max_in) simp_all
  then obtain d where "d \<in> set data" "year_of d = ?M" by auto
  then have "d \<in> set (recentYears data)"
    using assms by (simp add: recentYears_def maxYear_eq)
  then show ?thesis by auto
qed

lemma recentYears_daily_record:
  "list_all daily_record data \<Longrightarrow> list_all daily_record (recentYears data)"
  using recentYears_subset [of data] by (auto simp: list_all_iff)

lemma bucket_days:
  assumes "b \<in> set (createDailyData fd)"
  shows "days b \<noteq> [] \<and> set (days b) \<subseteq> set fd"
proof -
  let ?g = "records_of (cell_id b) fd"
  have b: "cell_id b \<in> cell_of ` set fd" "days b = sort_key (\<lambda>d. valueOf (date d)) ?g"
    using bucket_mem [OF assms] by simp_all
  have "?g \<noteq> []" using b(1) by (rule records_of_nonempty)
  moreover have "length (days b) = length ?g" by (simp add: b(2))
  ultimately have "days b \<noteq> []" by auto
  moreover have "set (days b) \<subseteq> set fd" by (auto simp: b(2) records_of_def)
  ultimately show ?thesis by simp
qed

lemma getGlobalTempExtent_eq:
  "getGlobalTempExtent fd t = (d3_min (column t) fd, d3_max (column t) fd)"
  by (simp add: getGlobalTempExtent_def column_def d3_extent_eq)

lemma column_numeric:
  "list_all daily_record fd \<Longrightarrow> list_all (\<lambda>d. is_number (column t d)) fd"
  by (simp add: column_def list_all_iff daily_record_def)

text \<open>
  Claim C6. After initialisation from a non-empty list of Daily Records and any sequence
  of calls, \<open>updateMatrix(field)\<close> of the recent-years heatmap leaves one cell per bucket of
  the windowed records; the fill of each is the colour, under the domain
  (minimum, maximum) of the field's temperature column over the windowed records, of the
  maximum of \<open>max_temperature\<close> over the cell's days when the field is max, and of the minimum
  of \<open>min_temperature\<close> over them when it is min.
\<close>

theorem updateMatrix2_fills:
  assumes "data \<noteq> []" and "list_all daily_record data"
  shows "map cell_data (cells (updateMatrix2 tempType (heatmap2_after data cs))) =
           createDailyData (recentYears data) \<and>
         (\<forall>c\<in>set (cells (updateMatrix2 tempType (heatmap2_after data cs))).
            \<exists>lo hi v. cell_bg_fill c = Some (YlOrRd (lo, hi) v) \<and>
              is_minimum lo (map (column tempType) (recentYears data)) \<and>
              is_maximum hi (map (column tempType) (recentYears data)) \<and>
              (tempType = ''max'' \<longrightarrow>
                 column tempType = max_temperature \<and>
                 is_maximum v (map max_temperature (days (cell_data c)))) \<and>
              (tempType = ''min'' \<longrightarrow>
                 column tempType = min_temperature \<and>
                 is_minimum v (map min_temperature (days (cell_data c)))))"
proof -
  let ?fd = "recentYears data"
  let ?h = "heatmap2_after data cs"
  have fd: "?fd \<noteq> []" "list_all daily_record ?fd"
    using assms by (simp_all add: recentYears_nonempty recentYears_daily_record)
  have lo: "is_minimum (d3_min (column tempType) ?fd) (map (column tempType) ?fd)"
    using fd(1) column_numeric [OF fd(2)] by (rule d3_min_is_minimum)
  have hi: "is_maximum (d3_max (column tempType) ?fd) (map (column tempType) ?fd)"
    using fd(1) column_numeric [OF fd(2)] by (rule d3_max_is_maximum)
  have "\<exists>lo hi v. cell_bg_fill c = Some (YlOrRd (lo, hi) v) \<and>
          is_minimum lo (map (column tempType) ?fd) \<and>
          is_maximum hi (map (column tempType) ?fd) \<and>
          (tempType = ''max'' \<longrightarrow> column tempType = max_temperature \<and>
             is_maximum v (map max_temperature (days (cell_data c)))) \<and>
          (tempType = ''min'' \<longrightarrow> column tempType = min_temperature \<and>
             is_minimum v (map min_temperature (days (cell_data c))))"
    if c: "c \<in> set (cells (updateMatrix2 tempType ?h))" for c
  proof -
    from cell_updateMatrix2 [OF c]
    have b: "cell_data c \<in> set (createDailyData ?fd)"
      and fill: "cell_bg_fill c =
        Some (YlOrRd (d3_min (column tempType) ?fd, d3_max (column tempType) ?fd)
                     (aggVal tempType (cell_data c)))"
      by (simp_all add: heatmap2_after_fields getGlobalTempExtent_eq)
    from bucket_days [OF b] have ne: "days (cell_data c) \<noteq> []"
      and sub: "set (days (cell_data c)) \<subseteq> set ?fd" by simp_all
    have "list_all daily_record (days (cell_data c))"
      using sub fd(2) by (auto simp: list_all_iff)
    then have "list_all (\<lambda>d. is_number (max_temperature d)) (days (cell_data c))"
      and "list_all (\<lambda>d. is_number (min_temperature d)) (days (cell_data c))"
      by (simp_all add: list_all_iff daily_record_def)
    then have "is_maximum (d3_max max_temperature (days (cell_data c)))
                 (map max_temperature (days (cell_data c)))"
      and "is_minimum (d3_min min_temperature (days (cell_data c)))
                 (map min_temperature (days (cell_data c)))"
      using ne by (simp_all add: d3_max_is_maximum d3_min_is_minimum)
    then have "(tempType = ''max'' \<longrightarrow> column tempType = max_temperature \<and>
             is_maximum (aggVal tempType (cell_data c)) (map max_temperature (days (cell_data c)))) \<and>
          (tempType = ''min'' \<longrightarrow> column tempType = min_temperature \<and>
             is_minimum (aggVal tempType (cell_data c)) (map min_temperature (days (cell_data c))))"
      by (simp add: aggVal_def column_def)
    then show ?thesis
      using fill lo hi by blast
  qed
  then show ?thesis
    by (simp add: cell_data_updateMatrix2 heatmap2_after_fields)
qed

lemma fills_updateMatrix2:
  "map cell_bg_fill (cells (updateMatrix2 t h)) =
     map (\<lambda>d. Some (YlOrRd (getGlobalTempExtent (filteredData h) t) (aggVal t d)))
       (processedDailyData h)"
proof -
  have "map cell_bg_fill (cells (updateMatrix2 t h)) =
        map (\<lambda>d. Some (YlOrRd (getGlobalTempExtent (filteredData h) t) (aggVal t d)))
          (map cell_data (cells (updateMatrix2 t h)))"
    unfolding map_map comp_def
    by (rule map_cong) (simp_all add: cell_updateMatrix2)
  then show ?thesis
    by (simp only: cell_data_updateMatrix2)
qed

theorem updateMatrix2_fills_witness:
  "witness_rows \<noteq> [] \<and> list_all daily_record witness_rows \<and>
   map cell_bg_fill (cells (updateMatrix2 ''min'' (heatmap2_after witness_rows [UpdateLegend ''min''])))
     = [Some (YlOrRd (Num (- 2), Num 2) (Num (- 2))), Some (YlOrRd (Num (- 2), Num 2) (Num 2))] \<and>
   map cell_bg_fill (cells (updateMatrix2 ''max'' (heatmap2_after witness_rows [UpdateLegend ''min''])))
     = [Some (YlOrRd (Num 3, Num 10) (Num 7)), Some (YlOrRd (Num 3, Num 10) (Num 10))] \<and>
   is_minimum (Num 3) (map (column ''max'') (recentYears witness_rows)) \<and>
   is_maximum (Num 10) (map (column ''max'') (recentYears witness_rows))"
proof -
  have fd: "recentYears witness_rows = witness_rows"
    by (simp add: recentYears_def maxYear_def d3_max_def d3_max_step_def witness_rows_def
        row_def year_of_def)
  have pdd: "createDailyData witness_rows =
     [\<lparr>year = 2019, month = 12, days = [row 2019 12 1 7 1, row 2019 12 31 3 (-2)]\<rparr>,
      \<lparr>year = 2020, month = 1, days = [row 2020 1 15 10 2]\<rparr>]"
    by (simp add: createDailyData_def flatten_rollup_def d3_rollup_def regroup_def
      witness_rows_def row_def year_of_def month_of_def valueOf_def)
  have hyp: "witness_rows \<noteq> [] \<and> list_all daily_record witness_rows"
    by (simp add: witness_rows_def row_def daily_record_def)
  have ext: "getGlobalTempExtent witness_rows ''min'' = (Num (- 2), Num 2)"
    "getGlobalTempExtent witness_rows ''max'' = (Num 3, Num 10)"
    by (simp_all add: getGlobalTempExtent_eq column_def witness_rows_def row_def
        d3_max_def d3_min_def d3_max_step_def d3_min_step_def)
  show ?thesis
    using hyp updateMatrix2_fills [of witness_rows "''min''" "[UpdateLegend ''min'']"]
    by (simp add: fills_updateMatrix2 heatmap2_after_fields fd pdd ext aggVal_def
        is_minimum_def is_maximum_def column_def
        d3_max_def d3_min_def d3_max_step_def d3_min_step_def)
      (simp add: witness_rows_def row_def)
qed

subsection \<open>The mini line charts\<close>






lemma lines_updateMatrix2:
  "map mini_line_max (cells (updateMatrix2 t h)) =
     map (\<lambda>d. Some (mini_line max_temperature h d)) (processedDailyData h)"
proof -
  have "map mini_line_max (cells (updateMatrix2 t h)) =
        map (\<lambda>d. Some (mini_line max_temperature h d)) (map cell_data (cells (updateMatrix2 t h)))"
    unfolding map_map comp_def
    by (rule map_cong) (simp_all add: cell_updateMatrix2)
  then show ?thesis
    by (simp only: cell_data_updateMatrix2)
qed



subsection \<open>Double-precision arithmetic\<close>

lemma search_exponent_eq:
  "2 powi t \<le> a \<Longrightarrow> a < 2 powi (t + 1) \<Longrightarrow> \<bar>t - e\<bar> \<le> int k \<Longrightarrow> search_exponent k e a = t"
proof (induction k arbitrary: e)
  case 0
  then show ?case by simp
next
  case (Suc k)
  show ?case
  proof (cases "a < 2 powi e")
    case True
    then have "(2::real) powi t < 2 powi e" using Suc.prems(1) by simp
    then have "t < e"
      by (metis not_le power_int_increasing one_le_numeral linorder_not_less)
    then have "\<bar>t - (e - 1)\<bar> \<le> int k" using Suc.prems(3) by simp
    then show ?thesis using True Suc.IH [OF Suc.prems(1,2)] by simp
  next
    case False
    show ?thesis
    proof (cases "2 powi (e + 1) \<le> a")
      case True
      then have "(2::real) powi (e + 1) < 2 powi (t + 1)" using Suc.prems(2) by simp
      then have "e + 1 < t + 1"
        by (metis not_le power_int_increasing one_le_numeral linorder_not_less)
      then have "\<bar>t - (e + 1)\<bar> \<le> int k" using Suc.prems(3) by simp
      then show ?thesis using True False Suc.IH [OF Suc.prems(1,2)] by simp
    next
      case F2: False
      have "(2::real) powi e < 2 powi (t + 1)" using False Suc.prems(2) by simp
      then have "e < t + 1"
        by (metis not_le power_int_increasing one_le_numeral linorder_not_less)
      moreover have "(2::real) powi t < 2 powi (e + 1)" using F2 Suc.prems(1) by simp
      then have "t < e + 1"
        by (metis not_le power_int_increasing one_le_numeral linorder_not_less)
      ultimately have "e = t" by simp
      then show ?thesis using False F2 by simp
    qed
  qed
qed

lemma exponent_eq:
  "2 powi t \<le> a \<Longrightarrow> a < 2 powi (t + 1) \<Longrightarrow> \<bar>t\<bar> \<le> 2200 \<Longrightarrow> exponent a = t"
  unfolding exponent_def by (rule search_exponent_eq) simp_all

lemma round_half_even_eq:
  assumes "\<bar>x - real_of_int r\<bar> < 1 / 2"
  shows "round_half_even x = r"
proof -
  have lo: "real_of_int r - 1 / 2 < x" and hi: "x < real_of_int r + 1 / 2"
    using assms by linarith+
  have "real_of_int (r - 1) \<le> x" using lo by simp
  then have f1: "r - 1 \<le> \<lfloor>x\<rfloor>" by (simp only: le_floor_iff)
  have "x < real_of_int (r + 1)" using hi by simp
  then have f2: "\<lfloor>x\<rfloor> < r + 1" by (simp only: floor_less_iff)
  from f1 f2 have "\<lfloor>x\<rfloor> = r \<or> \<lfloor>x\<rfloor> = r - 1" by linarith
  then show ?thesis
  proof
    assume f: "\<lfloor>x\<rfloor> = r"
    have "x - real_of_int r < 1 / 2" using hi by linarith
    then show ?thesis by (simp add: round_half_even_def Let_def f)
  next
    assume f: "\<lfloor>x\<rfloor> = r - 1"
    have "1 / 2 < x - real_of_int (r - 1)" using lo by simp
    then show ?thesis by (simp add: round_half_even_def Let_def f)
  qed
qed

lemma binary64_eq:
  assumes "2 powi t \<le> \<bar>x\<bar>" "\<bar>x\<bar> < 2 powi (t + 1)" "- 1022 \<le> t" "t \<le> 1023"
    and "\<bar>x / 2 powi (t - 52) - real_of_int r\<bar> < 1 / 2"
  shows "binary64 x = real_of_int r * 2 powi (t - 52)"
proof -
  have "0 < \<bar>x\<bar>" using assms(1) by (smt (verit) zero_less_power_int)
  then have nz: "x \<noteq> 0" by simp
  have "exponent \<bar>x\<bar> = t" using assms(1-4) by (intro exponent_eq) simp_all
  then show ?thesis
    using nz assms(3) round_half_even_eq [OF assms(5)]
    by (simp add: binary64_def Let_def max_def)
qed

text \<open>The band width for two years and for one year, operation by operation.\<close>

lemma bandwidth64_two_years: "bandwidth64 2 790 = 2978105780376137 / 8796093022208"
proof -
  have p: "binary64 (1 / 10) = (3602879701896397 / 36028797018963968)"
  proof -
    have "binary64 (1 / 10) = real_of_int 7205759403792794 * 2 powi (- 4 - 52)"
      by (rule binary64_eq) (simp_all add: power_int_minus)
    then show ?thesis by (simp add: power_int_minus)
  qed
  have a1: "binary64 (real 2 - (3602879701896397 / 36028797018963968)) = (4278419646001971 / 2251799813685248)"
  proof -
    have "binary64 (real 2 - (3602879701896397 / 36028797018963968)) = real_of_int 8556839292003942 * 2 powi (0 - 52)"
      by (rule binary64_eq) (simp_all add: power_int_minus)
    then show ?thesis by (simp add: power_int_minus)
  qed
  have a2: "binary64 ((3602879701896397 / 36028797018963968) * 2) = (3602879701896397 / 18014398509481984)"
  proof -
    have "binary64 ((3602879701896397 / 36028797018963968) * 2) = real_of_int 7205759403792794 * 2 powi (- 3 - 52)"
      by (rule binary64_eq) (simp_all add: power_int_minus)
    then show ?thesis by (simp add: power_int_minus)
  qed
  have a3: "binary64 ((4278419646001971 / 2251799813685248) + (3602879701896397 / 18014398509481984)) = (4728779608739021 / 2251799813685248)"
  proof -
    have "binary64 ((4278419646001971 / 2251799813685248) + (3602879701896397 / 18014398509481984)) = real_of_int 4728779608739021 * 2 powi (1 - 52)"
      by (rule binary64_eq) (simp_all add: power_int_minus)
    then show ?thesis by (simp add: power_int_minus)
  qed
  have st: "binary64 (790 / (4728779608739021 / 2251799813685248)) = (413625802830019 / 1099511627776)"
  proof -
    have "binary64 (790 / (4728779608739021 / 2251799813685248)) = real_of_int 6618012845280304 * 2 powi (8 - 52)"
      by (rule binary64_eq) (simp_all add: power_int_minus)
    then show ?thesis by (simp add: power_int_minus)
  qed
  have q: "binary64 (1 - (3602879701896397 / 36028797018963968)) = (8106479329266893 / 9007199254740992)"
  proof -
    have "binary64 (1 - (3602879701896397 / 36028797018963968)) = real_of_int 8106479329266893 * 2 powi (- 1 - 52)"
      by (rule binary64_eq) (simp_all add: power_int_minus)
    then show ?thesis by (simp add: power_int_minus)
  qed
  have w: "binary64 ((413625802830019 / 1099511627776) * (8106479329266893 / 9007199254740992)) = (2978105780376137 / 8796093022208)"
  proof -
    have "binary64 ((413625802830019 / 1099511627776) * (8106479329266893 / 9007199254740992)) = real_of_int 5956211560752274 * 2 powi (8 - 52)"
      by (rule binary64_eq) (simp_all add: power_int_minus)
    then show ?thesis by (simp add: power_int_minus)
  qed
  have mn: "min (1::real) (3602879701896397 / 36028797018963968) = (3602879701896397 / 36028797018963968)" by simp
  have mx: "max (1::real) (4728779608739021 / 2251799813685248) = (4728779608739021 / 2251799813685248)" by simp
  show ?thesis
    unfolding bandwidth64_def Let_def p mn a1 a2 a3 mx st q w ..
qed

lemma bandwidth64_one_year: "bandwidth64 1 790 = 5685474671627171 / 8796093022208"
proof -
  have p: "binary64 (1 / 10) = (3602879701896397 / 36028797018963968)"
  proof -
    have "binary64 (1 / 10) = real_of_int 7205759403792794 * 2 powi (- 4 - 52)"
      by (rule binary64_eq) (simp_all add: power_int_minus)
    then show ?thesis by (simp add: power_int_minus)
  qed
  have a1: "binary64 (real 1 - (3602879701896397 / 36028797018963968)) = (8106479329266893 / 9007199254740992)"
  proof -
    have "binary64 (real 1 - (3602879701896397 / 36028797018963968)) = real_of_int 8106479329266893 * 2 powi (- 1 - 52)"
      by (rule binary64_eq) (simp_all add: power_int_minus)
    then show ?thesis by (simp add: power_int_minus)
  qed
  have a2: "binary64 ((3602879701896397 / 36028797018963968) * 2) = (3602879701896397 / 18014398509481984)"
  proof -
    have "binary64 ((3602879701896397 / 36028797018963968) * 2) = real_of_int 7205759403792794 * 2 powi (- 3 - 52)"
      by (rule binary64_eq) (simp_all add: power_int_minus)
    then show ?thesis by (simp add: power_int_minus)
  qed
  have a3: "binary64 ((8106479329266893 / 9007199254740992) + (3602879701896397 / 18014398509481984)) = (2476979795053773 / 2251799813685248)"
  proof -
    have "binary64 ((8106479329266893 / 9007199254740992) + (3602879701896397 / 18014398509481984)) = real_of_int 4953959590107546 * 2 powi (0 - 52)"
      by (rule binary64_eq) (simp_all add: power_int_minus)
    then show ?thesis by (simp add: power_int_minus)
  qed
  have st: "binary64 (790 / (2476979795053773 / 2251799813685248)) = (6317194079585745 / 8796093022208)"
  proof -
    have "binary64 (790 / (2476979795053773 / 2251799813685248)) = real_of_int 6317194079585745 * 2 powi (9 - 52)"
      by (rule binary64_eq) (simp_all add: power_int_minus)
    then show ?thesis by (simp add: power_int_minus)
  qed
  have q: "binary64 (1 - (3602879701896397 / 36028797018963968)) = (8106479329266893 / 9007199254740992)"
  proof -
    have "binary64 (1 - (3602879701896397 / 36028797018963968)) = real_of_int 8106479329266893 * 2 powi (- 1 - 52)"
      by (rule binary64_eq) (simp_all add: power_int_minus)
    then show ?thesis by (simp add: power_int_minus)
  qed
  have w: "binary64 ((6317194079585745 / 8796093022208) * (8106479329266893 / 9007199254740992)) = (5685474671627171 / 8796093022208)"
  proof -
    have "binary64 ((6317194079585745 / 8796093022208) * (8106479329266893 / 9007199254740992)) = real_of_int 5685474671627171 * 2 powi (9 - 52)"
      by (rule binary64_eq) (simp_all add: power_int_minus)
    then show ?thesis by (simp add: power_int_minus)
  qed
  have mn: "min (1::real) (3602879701896397 / 36028797018963968) = (3602879701896397 / 36028797018963968)" by simp
  have mx: "max (1::real) (2476979795053773 / 2251799813685248) = (2476979795053773 / 2251799813685248)" by simp
  show ?thesis
    unfolding bandwidth64_def Let_def p mn a1 a2 a3 mx st q w ..
qed

text \<open>The pixel offsets of the tooltip are doubles themselves.\<close>

lemma binary64_410: "binary64 410 = 410"
proof -
  have "binary64 410 = real_of_int 7212796278210560 * 2 powi (8 - 52)"
    by (rule binary64_eq) (simp_all add: power_int_minus)
  then show ?thesis by (simp add: power_int_minus)
qed

lemma binary64_290: "binary64 290 = 290"
proof -
  have "binary64 290 = real_of_int 5101733952880640 * 2 powi (8 - 52)"
    by (rule binary64_eq) (simp_all add: power_int_minus)
  then show ?thesis by (simp add: power_int_minus)
qed

text \<open>The day index at some offsets, in a cell of two days of a heatmap of two years.\<close>

lemma index_at_10:
  "\<lfloor>binary64 (binary64 (10 / (2978105780376137 / 8796093022208)) * real 2)\<rfloor> = 0"
proof -
  have quot: "binary64 (10 / (2978105780376137 / 8796093022208)) = (1064141684104421 / 36028797018963968)"
  proof -
    have "binary64 (10 / (2978105780376137 / 8796093022208)) = real_of_int 8513133472835368 * 2 powi (- 6 - 52)"
      by (rule binary64_eq) (simp_all add: power_int_minus)
    then show ?thesis by (simp add: power_int_minus)
  qed
  have prod: "binary64 ((1064141684104421 / 36028797018963968) * real 2) = (1064141684104421 / 18014398509481984)"
  proof -
    have "binary64 ((1064141684104421 / 36028797018963968) * real 2) = real_of_int 8513133472835368 * 2 powi (- 5 - 52)"
      by (rule binary64_eq) (simp_all add: power_int_minus)
    then show ?thesis by (simp add: power_int_minus)
  qed
  show ?thesis
    unfolding quot prod by simp
qed

lemma index_at_200:
  "\<lfloor>binary64 (binary64 (200 / (2978105780376137 / 8796093022208)) * real 2)\<rfloor> = 1"
proof -
  have quot: "binary64 (200 / (2978105780376137 / 8796093022208)) = (5320708420522105 / 9007199254740992)"
  proof -
    have "binary64 (200 / (2978105780376137 / 8796093022208)) = real_of_int 5320708420522105 * 2 powi (- 1 - 52)"
      by (rule binary64_eq) (simp_all add: power_int_minus)
    then show ?thesis by (simp add: power_int_minus)
  qed
  have prod: "binary64 ((5320708420522105 / 9007199254740992) * real 2) = (5320708420522105 / 4503599627370496)"
  proof -
    have "binary64 ((5320708420522105 / 9007199254740992) * real 2) = real_of_int 5320708420522105 * 2 powi (0 - 52)"
      by (rule binary64_eq) (simp_all add: power_int_minus)
    then show ?thesis by (simp add: power_int_minus)
  qed
  show ?thesis
    unfolding quot prod by simp
qed

lemma index_at_340:
  "\<lfloor>binary64 (binary64 (340 / (2978105780376137 / 8796093022208)) * real 2)\<rfloor> = 2"
proof -
  have quot: "binary64 (340 / (2978105780376137 / 8796093022208)) = (4522602157443789 / 4503599627370496)"
  proof -
    have "binary64 (340 / (2978105780376137 / 8796093022208)) = real_of_int 4522602157443789 * 2 powi (0 - 52)"
      by (rule binary64_eq) (simp_all add: power_int_minus)
    then show ?thesis by (simp add: power_int_minus)
  qed
  have prod: "binary64 ((4522602157443789 / 4503599627370496) * real 2) = (4522602157443789 / 2251799813685248)"
  proof -
    have "binary64 ((4522602157443789 / 4503599627370496) * real 2) = real_of_int 4522602157443789 * 2 powi (1 - 52)"
      by (rule binary64_eq) (simp_all add: power_int_minus)
    then show ?thesis by (simp add: power_int_minus)
  qed
  show ?thesis
    unfolding quot prod by simp
qed

lemma index_at_minus_1:
  "\<lfloor>binary64 (binary64 ((- 1) / (2978105780376137 / 8796093022208)) * real 2)\<rfloor> = - 1"
proof -
  have quot: "binary64 ((- 1) / (2978105780376137 / 8796093022208)) = (- (6810506778268295 / 2305843009213693952))"
  proof -
    have "binary64 ((- 1) / (2978105780376137 / 8796093022208)) = real_of_int (- 6810506778268295) * 2 powi (- 9 - 52)"
      by (rule binary64_eq) (simp_all add: power_int_minus)
    then show ?thesis by (simp add: power_int_minus)
  qed
  have prod: "binary64 ((- (6810506778268295 / 2305843009213693952)) * real 2) = (- (6810506778268295 / 1152921504606846976))"
  proof -
    have "binary64 ((- (6810506778268295 / 2305843009213693952)) * real 2) = real_of_int (- 6810506778268295) * 2 powi (- 8 - 52)"
      by (rule binary64_eq) (simp_all add: power_int_minus)
    then show ?thesis by (simp add: power_int_minus)
  qed
  show ?thesis
    unfolding quot prod by simp
qed

text \<open>
  Rounding is visible on the boundary between two days: in a heatmap of one year and a
  cell of 18 days the offset 395 is the exact start of the day at index 11, and the
  rounded product lies just below 11.
\<close>

lemma index_boundary:
  "\<lfloor>binary64 (binary64 (395 / (5685474671627171 / 8796093022208)) * real 18)\<rfloor> = 10"
proof -
  have quot: "binary64 (395 / (5685474671627171 / 8796093022208)) = (5504399544563939 / 9007199254740992)"
  proof -
    have "binary64 (395 / (5685474671627171 / 8796093022208)) = real_of_int 5504399544563939 * 2 powi (- 1 - 52)"
      by (rule binary64_eq) (simp_all add: power_int_minus)
    then show ?thesis by (simp add: power_int_minus)
  qed
  have prod: "binary64 ((5504399544563939 / 9007199254740992) * real 18) = (6192449487634431 / 562949953421312)"
  proof -
    have "binary64 ((5504399544563939 / 9007199254740992) * real 18) = real_of_int 6192449487634431 * 2 powi (3 - 52)"
      by (rule binary64_eq) (simp_all add: power_int_minus)
    then show ?thesis by (simp add: power_int_minus)
  qed
  show ?thesis
    unfolding quot prod by simp
qed

lemma index_boundary_exact: "\<lfloor>395 / bandwidth 1 790 * real 18\<rfloor> = 11"
  by (simp add: bandwidth_def)

subsection \<open>Hovering\<close>

text \<open>
  The two hover handlers. Hovering a cell of the recent-years heatmap whose day sequence
  has length \<open>n\<close> at horizontal offset \<open>mx\<close> selects the index that is the floor of the
  double product of the double quotient \<open>mx / band width\<close> and \<open>n\<close>. When the index is
  outside \<open>[0, n - 1]\<close> both handlers leave the tooltip as it was. Otherwise \<open>mouseover\<close>
  displays the tooltip with the date, \<open>max_temperature\<close> and \<open>min_temperature\<close> of the day at
  that index, and \<open>mousemove\<close> moves the tooltip next to the pointer.
\<close>

theorem hover_day:
  "dayIndex h d mx =
     \<lfloor>binary64 (binary64 (mx / xScale_bandwidth (processedDailyData h)) * real (length (days d)))\<rfloor> \<and>
   (0 \<le> dayIndex h d mx \<and> dayIndex h d mx < int (length (days d)) \<longrightarrow>
      mouseover2 h d mx tt =
        tt\<lparr>display := True,
           html := DayTip (date (days d ! nat (dayIndex h d mx)))
                     (max_temperature (days d ! nat (dayIndex h d mx)))
                     (min_temperature (days d ! nat (dayIndex h d mx)))\<rparr> \<and>
      mousemove2 h d mx page tt =
        tt\<lparr>left := binary64 (fst page + 10), top := binary64 (snd page - 10)\<rparr>) \<and>
   (\<not> (0 \<le> dayIndex h d mx \<and> dayIndex h d mx < int (length (days d))) \<longrightarrow>
      mouseover2 h d mx tt = tt \<and> mousemove2 h d mx page tt = tt)"
  by (simp add: mouseover2_def mousemove2_def array_get_def) (simp add: dayIndex_def)

lemma xScale_bandwidth_witness_rows:
  "xScale_bandwidth (processedDailyData (snd (initVisualizations witness_rows))) =
     2978105780376137 / 8796093022208"
proof -
  have fd: "recentYears witness_rows = witness_rows"
    by (simp add: recentYears_def maxYear_def d3_max_def d3_max_step_def witness_rows_def
        row_def year_of_def)
  have pdd: "createDailyData witness_rows =
     [\<lparr>year = 2019, month = 12, days = [row 2019 12 1 7 1, row 2019 12 31 3 (-2)]\<rparr>,
      \<lparr>year = 2020, month = 1, days = [row 2020 1 15 10 2]\<rparr>]"
    by (simp add: createDailyData_def flatten_rollup_def d3_rollup_def regroup_def
      witness_rows_def row_def year_of_def month_of_def valueOf_def)
  have n: "length (years (processedDailyData (snd (initVisualizations witness_rows)))) = 2"
    by (simp add: initVisualizations_def Let_def fd pdd years_def js_Set_def)
  have e: "(900 - 80 - 30 :: real) = 790" by simp
  show ?thesis
    unfolding xScale_bandwidth_def n e by (rule bandwidth64_two_years)
qed

lemma dayIndex_december_2019:
  "dayIndex (snd (initVisualizations witness_rows)) december_2019 10 = 0"
  "dayIndex (snd (initVisualizations witness_rows)) december_2019 200 = 1"
  "dayIndex (snd (initVisualizations witness_rows)) december_2019 340 = 2"
  "dayIndex (snd (initVisualizations witness_rows)) december_2019 (- 1) = - 1"
proof -
  have n: "length (days december_2019) = 2"
    by (simp add: december_2019_def)
  show "dayIndex (snd (initVisualizations witness_rows)) december_2019 10 = 0"
    unfolding dayIndex_def xScale_bandwidth_witness_rows n by (rule index_at_10)
  show "dayIndex (snd (initVisualizations witness_rows)) december_2019 200 = 1"
    unfolding dayIndex_def xScale_bandwidth_witness_rows n by (rule index_at_200)
  show "dayIndex (snd (initVisualizations witness_rows)) december_2019 340 = 2"
    unfolding dayIndex_def xScale_bandwidth_witness_rows n by (rule index_at_340)
  show "dayIndex (snd (initVisualizations witness_rows)) december_2019 (- 1) = - 1"
    unfolding dayIndex_def xScale_bandwidth_witness_rows n by (rule index_at_minus_1)
qed

theorem hover_day_witness:
  "mouseover2 (snd (initVisualizations witness_rows)) december_2019 200 hidden_tooltip =
     \<lparr>display = True,
      html = DayTip \<lparr>getFullYear = 2019, getMonth = 11, getDate = 31\<rparr> (Num 3) (Num (- 2)),
      left = 0, top = 0\<rparr> \<and>
   mouseover2 (snd (initVisualizations witness_rows)) december_2019 340 hidden_tooltip =
     hidden_tooltip \<and>
   mouseover2 (snd (initVisualizations witness_rows)) december_2019 (- 1) hidden_tooltip =
     hidden_tooltip \<and>
   dayIndex (snd (initVisualizations witness_rows)) december_2019 200 = 1"
proof -
  let ?h = "snd (initVisualizations witness_rows)"
  note i = dayIndex_december_2019
  have n: "int (length (days december_2019)) = 2"
    by (simp add: december_2019_def)
  have "0 \<le> dayIndex ?h december_2019 200 \<and>
        dayIndex ?h december_2019 200 < int (length (days december_2019))"
    by (simp add: i n)
  with hover_day [of ?h december_2019 200 hidden_tooltip]
  have "mouseover2 ?h december_2019 200 hidden_tooltip =
        hidden_tooltip\<lparr>display := True,
           html := DayTip (date (days december_2019 ! nat (dayIndex ?h december_2019 200)))
                     (max_temperature (days december_2019 ! nat (dayIndex ?h december_2019 200)))
                     (min_temperature (days december_2019 ! nat (dayIndex ?h december_2019 200)))\<rparr>"
    by blast
  then have a: "mouseover2 ?h december_2019 200 hidden_tooltip =
     \<lparr>display = True,
      html = DayTip \<lparr>getFullYear = 2019, getMonth = 11, getDate = 31\<rparr> (Num 3) (Num (- 2)),
      left = 0, top = 0\<rparr>"
    unfolding i by (simp add: december_2019_def hidden_tooltip_def row_def)
  have "\<not> (0 \<le> dayIndex ?h december_2019 340 \<and>
        dayIndex ?h december_2019 340 < int (length (days december_2019)))"
    by (simp add: i n)
  with hover_day [of ?h december_2019 340 hidden_tooltip]
  have b: "mouseover2 ?h december_2019 340 hidden_tooltip = hidden_tooltip"
    by blast
  have "\<not> (0 \<le> dayIndex ?h december_2019 (- 1) \<and>
        dayIndex ?h december_2019 (- 1) < int (length (days december_2019)))"
    by (simp add: i n)
  with hover_day [of ?h december_2019 "- 1" hidden_tooltip]
  have c: "mouseover2 ?h december_2019 (- 1) hidden_tooltip = hidden_tooltip"
    by blast
  show ?thesis
    using a b c by (simp only: i simp_thms)
qed

text \<open>
  Claim C8 on a pointer that enters the cell of December 2019 (two days) at offset 10 and
  then moves inside it to offset 200. The move selects index 1, a day that is present
  (31 December), and the handler of the move puts the tooltip next to the pointer; the
  content of the tooltip is still the one the entry wrote, the day at index 0
  (1 December). A move that no entry preceded leaves the tooltip hidden and empty.
\<close>

theorem hover_stale_content:
  "dayIndex (snd (initVisualizations witness_rows)) december_2019 10 = 0 \<and>
   dayIndex (snd (initVisualizations witness_rows)) december_2019 200 = 1 \<and>
   array_get (days december_2019) 1 = Some (row 2019 12 31 3 (- 2)) \<and>
   html (mouseover2 (snd (initVisualizations witness_rows)) december_2019 10 hidden_tooltip) =
     DayTip \<lparr>getFullYear = 2019, getMonth = 11, getDate = 1\<rparr> (Num 7) (Num 1) \<and>
   mousemove2 (snd (initVisualizations witness_rows)) december_2019 200 (400, 300)
       (mouseover2 (snd (initVisualizations witness_rows)) december_2019 10 hidden_tooltip) =
     \<lparr>display = True,
      html = DayTip \<lparr>getFullYear = 2019, getMonth = 11, getDate = 1\<rparr> (Num 7) (Num 1),
      left = 410, top = 290\<rparr> \<and>
   mousemove2 (snd (initVisualizations witness_rows)) december_2019 200 (400, 300) hidden_tooltip =
     \<lparr>display = False, html = NoTip, left = 410, top = 290\<rparr>"
  unfolding mouseover2_def mousemove2_def dayIndex_december_2019
  by (simp add: array_get_def december_2019_def hidden_tooltip_def row_def
      binary64_410 binary64_290)

section \<open>Re-rendering\<close>

lemma matrix_updateMatrix1:
  "matrix (updateMatrix1 t h) =
     map (paint_rect t h)
       (bindKey cell_id rect_data (\<lambda>n d. n\<lparr>rect_data := d\<rparr>)
          (enter_rect (processedData h)) (matrix h) (processedData h))"
  by (simp add: updateMatrix1_def paint_rect_def)

lemma updateMatrix1_eq:
  "updateMatrix1 t h =
     h\<lparr>matrix := map (paint_rect t h)
       (bindKey cell_id rect_data (\<lambda>n d. n\<lparr>rect_data := d\<rparr>)
          (enter_rect (processedData h)) (matrix h) (processedData h))\<rparr>"
  by (simp add: updateMatrix1_def paint_rect_def)

lemma updateMatrix2_eq:
  "updateMatrix2 t h =
     h\<lparr>cells := map (paint_cell t h)
       (bindKey cell_id cell_data (\<lambda>n d. n\<lparr>cell_data := d\<rparr>)
          (enter_cell (processedDailyData h)) (cells h) (processedDailyData h))\<rparr>"
  by (simp add: updateMatrix2_def Let_def paint_cell_def)

lemma paint_rect_cong:
  "colorScale_domain h' = colorScale_domain h \<Longrightarrow> paint_rect t h' = paint_rect t h"
  by (simp add: paint_rect_def fun_eq_iff)

lemma paint_cell_cong:
  "processedDailyData h' = processedDailyData h \<Longrightarrow> filteredData h' = filteredData h \<Longrightarrow>
   globalMiniExtent h' = globalMiniExtent h \<Longrightarrow> paint_cell t h' = paint_cell t h"
  by (simp add: paint_cell_def fun_eq_iff mini_line_def)

lemma rect_data_updateMatrix1:
  "map rect_data (matrix (updateMatrix1 t h)) = processedData h"
proof -
  have "map rect_data (bindKey cell_id rect_data (\<lambda>n d. n\<lparr>rect_data := d\<rparr>)
          (enter_rect (processedData h)) (matrix h) (processedData h)) = processedData h"
    by (rule bindKey_data) (simp_all add: enter_rect_def)
  then show ?thesis
    by (simp add: matrix_updateMatrix1 comp_def paint_rect_def)
qed

lemma fills_updateMatrix1:
  "map rect_fill (matrix (updateMatrix1 t h)) =
     map (\<lambda>d. Some (YlOrRd (colorScale_domain h) (summary_get d t))) (processedData h)"
proof -
  have "map rect_fill (matrix (updateMatrix1 t h)) =
        map (\<lambda>d. Some (YlOrRd (colorScale_domain h) (summary_get d t)))
          (map rect_data (matrix (updateMatrix1 t h)))"
    by (simp add: matrix_updateMatrix1 comp_def paint_rect_def)
  then show ?thesis
    by (simp only: rect_data_updateMatrix1)
qed

lemma lines_min_updateMatrix2:
  "map mini_line_min (cells (updateMatrix2 t h)) =
     map (\<lambda>d. Some (mini_line min_temperature h d)) (processedDailyData h)"
proof -
  have "map mini_line_min (cells (updateMatrix2 t h)) =
        map (\<lambda>d. Some (mini_line min_temperature h d)) (map cell_data (cells (updateMatrix2 t h)))"
    unfolding map_map comp_def
    by (rule map_cong) (simp_all add: cell_updateMatrix2)
  then show ?thesis
    by (simp only: cell_data_updateMatrix2)
qed

lemma updateMatrix1_idem:
  assumes "distinct (map cell_id (processedData h))"
  shows "updateMatrix1 t (updateMatrix1 t h) = updateMatrix1 t h"
proof -
  let ?B = "bindKey cell_id rect_data (\<lambda>n d. n\<lparr>rect_data := d\<rparr>) (enter_rect (processedData h))"
  let ?h' = "updateMatrix1 t h"
  have p: "paint_rect t ?h' = paint_rect t h"
    by (rule paint_rect_cong) simp
  have "map (paint_rect t h) (?B (map (paint_rect t h) (?B (matrix h) (processedData h)))
          (processedData h)) = map (paint_rect t h) (?B (matrix h) (processedData h))"
    using assms by (intro bindKey_idem) (simp_all add: enter_rect_def paint_rect_def)
  then have "map (paint_rect t ?h') (?B (matrix ?h') (processedData h)) = matrix ?h'"
    by (simp only: p matrix_updateMatrix1)
  then have "updateMatrix1 t ?h' = ?h'\<lparr>matrix := matrix ?h'\<rparr>"
    by (subst updateMatrix1_eq) simp
  then show ?thesis by simp
qed

lemma updateMatrix2_idem:
  assumes "distinct (map cell_id (processedDailyData h))"
  shows "updateMatrix2 t (updateMatrix2 t h) = updateMatrix2 t h"
proof -
  let ?B = "bindKey cell_id cell_data (\<lambda>n d. n\<lparr>cell_data := d\<rparr>) (enter_cell (processedDailyData h))"
  let ?h' = "updateMatrix2 t h"
  have p: "paint_cell t ?h' = paint_cell t h"
    by (rule paint_cell_cong) simp_all
  have "map (paint_cell t h) (?B (map (paint_cell t h) (?B (cells h) (processedDailyData h)))
          (processedDailyData h)) = map (paint_cell t h) (?B (cells h) (processedDailyData h))"
    using assms by (intro bindKey_idem) (simp_all add: enter_cell_def paint_cell_def)
  then have "map (paint_cell t ?h') (?B (cells ?h') (processedDailyData h)) = cells ?h'"
    by (simp only: p cells_updateMatrix2)
  then have "updateMatrix2 t ?h' = ?h'\<lparr>cells := cells ?h'\<rparr>"
    by (subst updateMatrix2_eq) simp
  then show ?thesis by simp
qed

lemma heatmap1_after_fields:
  "processedData (heatmap1_after data cs) = createAggregatedData data"
  "colorScale_domain (heatmap1_after data cs) =
     (d3_min smin (createAggregatedData data), d3_max smax (createAggregatedData data))"
  by (simp_all add: heatmap1_after_def calls1_frame initVisualizations_def Let_def
      colorScale_domain_createYearlyHeatmap)

text \<open>
  Claim C9. On either heatmap, after initialisation and any sequence of calls, calling
  \<open>updateMatrix(field)\<close> twice in a row leaves the state that calling it once leaves. The
  fills and line paths it assigns are a function of the aggregated data and the field
  alone (they do not depend on the calls made before), and the call changes neither the
  summaries, nor the buckets, nor the windowed records.
\<close>

theorem updateMatrix_idempotent:
  "updateMatrix1 t (updateMatrix1 t (heatmap1_after data cs)) =
     updateMatrix1 t (heatmap1_after data cs) \<and>
   updateMatrix2 t (updateMatrix2 t (heatmap2_after data cs)) =
     updateMatrix2 t (heatmap2_after data cs) \<and>
   map (\<lambda>n. (rect_data n, rect_fill n)) (matrix (updateMatrix1 t (heatmap1_after data cs))) =
     map (\<lambda>n. (rect_data n, rect_fill n)) (matrix (updateMatrix1 t (heatmap1_after data [])))  \<and>
   map (\<lambda>n. (cell_data n, cell_bg_fill n, mini_line_max n, mini_line_min n))
       (cells (updateMatrix2 t (heatmap2_after data cs))) =
     map (\<lambda>n. (cell_data n, cell_bg_fill n, mini_line_max n, mini_line_min n))
       (cells (updateMatrix2 t (heatmap2_after data []))) \<and>
   processedData (updateMatrix1 t (heatmap1_after data cs)) = createAggregatedData data \<and>
   processedDailyData (updateMatrix2 t (heatmap2_after data cs)) = createDailyData (recentYears data) \<and>
   filteredData (updateMatrix2 t (heatmap2_after data cs)) = recentYears data"
proof -
  have "distinct (map cell_id (processedData (heatmap1_after data cs)))"
    by (simp add: heatmap1_after_fields cell_id_createAggregatedData month_groups_distinct)
  then have i1: "updateMatrix1 t (updateMatrix1 t (heatmap1_after data cs)) =
     updateMatrix1 t (heatmap1_after data cs)"
    by (rule updateMatrix1_idem)
  have "distinct (map cell_id (processedDailyData (heatmap2_after data cs)))"
    by (simp add: heatmap2_after_fields cell_id_createDailyData month_groups_distinct)
  then have i2: "updateMatrix2 t (updateMatrix2 t (heatmap2_after data cs)) =
     updateMatrix2 t (heatmap2_after data cs)"
    by (rule updateMatrix2_idem)
  have zip1: "map (\<lambda>n. (rect_data n, rect_fill n)) ns = zip (map rect_data ns) (map rect_fill ns)"
    for ns :: "rect list"
    by (induction ns) simp_all
  have zip2: "map (\<lambda>n. (cell_data n, cell_bg_fill n, mini_line_max n, mini_line_min n)) ns =
      zip (map cell_data ns) (zip (map cell_bg_fill ns) (zip (map mini_line_max ns) (map mini_line_min ns)))"
    for ns :: "cell list"
    by (induction ns) simp_all
  have ml: "mini_line f (heatmap2_after data cs) = mini_line f (heatmap2_after data [])" for f
    by (simp add: fun_eq_iff mini_line_def heatmap2_after_fields)
  have r1: "map (\<lambda>n. (rect_data n, rect_fill n)) (matrix (updateMatrix1 t (heatmap1_after data cs))) =
     map (\<lambda>n. (rect_data n, rect_fill n)) (matrix (updateMatrix1 t (heatmap1_after data [])))"
    unfolding zip1 rect_data_updateMatrix1 fills_updateMatrix1 heatmap1_after_fields ..
  have r2: "map (\<lambda>n. (cell_data n, cell_bg_fill n, mini_line_max n, mini_line_min n))
       (cells (updateMatrix2 t (heatmap2_after data cs))) =
     map (\<lambda>n. (cell_data n, cell_bg_fill n, mini_line_max n, mini_line_min n))
       (cells (updateMatrix2 t (heatmap2_after data [])))"
    unfolding zip2 cell_data_updateMatrix2 fills_updateMatrix2 lines_updateMatrix2
      lines_min_updateMatrix2 heatmap2_after_fields ml [of _] ..
  show ?thesis
    using i1 i2 r1 r2 by (simp add: heatmap1_after_fields heatmap2_after_fields)
qed


theorem updateMatrix_idempotent_witness:
  "map rect_fill (matrix (updateMatrix1 ''min'' (updateMatrix1 ''min''
       (heatmap1_after witness_rows [UpdateMatrix ''max''])))) =
     [Some (YlOrRd (Num (- 2), Num 10) (Num (- 2))), Some (YlOrRd (Num (- 2), Num 10) (Num 2))] \<and>
   map rect_fill (matrix (updateMatrix1 ''min''
       (heatmap1_after witness_rows [UpdateMatrix ''max'']))) =
     [Some (YlOrRd (Num (- 2), Num 10) (Num (- 2))), Some (YlOrRd (Num (- 2), Num 10) (Num 2))] \<and>
   map cell_bg_fill (cells (updateMatrix2 ''max'' (updateMatrix2 ''max''
       (heatmap2_after witness_rows [UpdateMatrix ''min''])))) =
     [Some (YlOrRd (Num 3, Num 10) (Num 7)), Some (YlOrRd (Num 3, Num 10) (Num 10))]"
proof -
  have fd: "recentYears witness_rows = witness_rows"
    by (simp add: recentYears_def maxYear_def d3_max_def d3_max_step_def witness_rows_def
        row_def year_of_def)
  have pdd: "createDailyData witness_rows =
     [\<lparr>year = 2019, month = 12, days = [row 2019 12 1 7 1, row 2019 12 31 3 (-2)]\<rparr>,
      \<lparr>year = 2020, month = 1, days = [row 2020 1 15 10 2]\<rparr>]"
    by (simp add: createDailyData_def flatten_rollup_def d3_rollup_def regroup_def
      witness_rows_def row_def year_of_def month_of_def valueOf_def)
  have pd: "createAggregatedData witness_rows =
     [\<lparr>year = 2019, month = 12, smax = Num 7, smin = Num (- 2)\<rparr>,
      \<lparr>year = 2020, month = 1, smax = Num 10, smin = Num 2\<rparr>]"
    by (simp add: createAggregatedData_def flatten_rollup_def d3_rollup_def regroup_def
      witness_rows_def row_def year_of_def month_of_def d3_max_def d3_min_def
      d3_max_step_def d3_min_step_def)
  have ext: "getGlobalTempExtent witness_rows ''max'' = (Num 3, Num 10)"
    by (simp add: getGlobalTempExtent_eq column_def witness_rows_def row_def
        d3_max_def d3_min_def d3_max_step_def d3_min_step_def)
  have dom: "(d3_min smin (createAggregatedData witness_rows),
              d3_max smax (createAggregatedData witness_rows)) = (Num (- 2), Num 10)"
    by (simp add: pd d3_max_def d3_min_def d3_max_step_def d3_min_step_def)
  have one: "map rect_fill (matrix (updateMatrix1 ''min''
       (heatmap1_after witness_rows [UpdateMatrix ''max'']))) =
     [Some (YlOrRd (Num (- 2), Num 10) (Num (- 2))), Some (YlOrRd (Num (- 2), Num 10) (Num 2))]"
    unfolding fills_updateMatrix1 heatmap1_after_fields dom
    by (simp add: pd summary_get_def)
  have two: "map cell_bg_fill (cells (updateMatrix2 ''max''
       (heatmap2_after witness_rows [UpdateMatrix ''min'']))) =
     [Some (YlOrRd (Num 3, Num 10) (Num 7)), Some (YlOrRd (Num 3, Num 10) (Num 10))]"
    unfolding fills_updateMatrix2 heatmap2_after_fields fd ext
    by (simp add: pdd aggVal_def row_def d3_max_def d3_max_step_def)
  show ?thesis
    using updateMatrix_idempotent [of "''min''" witness_rows "[UpdateMatrix ''max'']"]
      updateMatrix_idempotent [of "''max''" witness_rows "[UpdateMatrix ''min'']"]
    by (simp add: one two)
qed

section \<open>Agreement of the two views\<close>

lemma d3_max_sort_key: "d3_max f (sort_key g xs) = d3_max f xs"
  by (simp add: d3_max_eq nums_set_cong [of "sort_key g xs" xs])

lemma d3_min_sort_key: "d3_min f (sort_key g xs) = d3_min f xs"
  by (simp add: d3_min_eq nums_set_cong [of "sort_key g xs" xs])

lemma records_of_recentYears:
  assumes "k \<in> cell_of ` set (recentYears data)"
  shows "records_of k (recentYears data) = records_of k data"
proof -
  let ?P = "\<lambda>y. js_ge (Num y) (js_sub (maxYear data) (Num 9))"
  from assms obtain d0 where "d0 \<in> set data" "?P (year_of d0)" "cell_of d0 = k"
    by (auto simp: recentYears_def)
  then have P: "?P (fst k)" by (auto simp: cell_of_def)
  have "records_of k (recentYears data) = filter (\<lambda>d. ?P (year_of d) \<and> cell_of d = k) data"
    by (simp add: records_of_def recentYears_def conj_commute)
  also have "\<dots> = filter (\<lambda>d. cell_of d = k) data"
    by (rule filter_cong) (use P in \<open>auto simp: cell_of_def\<close>)
  finally show ?thesis by (simp add: records_of_def)
qed

lemma bucket_agrees:
  assumes "b \<in> set (createDailyData (recentYears data))"
  shows "(\<exists>s\<in>set (createAggregatedData data). cell_id s = cell_id b) \<and>
         (\<forall>s\<in>set (createAggregatedData data). cell_id s = cell_id b \<longrightarrow>
            aggVal ''max'' b = smax s \<and> aggVal ''min'' b = smin s)"
proof -
  let ?k = "cell_id b"
  have b: "?k \<in> cell_of ` set (recentYears data)"
    "days b = sort_key (\<lambda>d. valueOf (date d)) (records_of ?k (recentYears data))"
    using bucket_mem [OF assms] by simp_all
  have g: "records_of ?k (recentYears data) = records_of ?k data"
    using b(1) by (rule records_of_recentYears)
  have k: "?k \<in> cell_of ` set data"
    using b(1) recentYears_subset [of data] by auto
  have agg: "aggVal ''max'' b = d3_max max_temperature (records_of ?k data)"
    "aggVal ''min'' b = d3_min min_temperature (records_of ?k data)"
    by (simp_all add: aggVal_def b(2) g d3_max_sort_key d3_min_sort_key)
  have "cell_id \<lparr>year = fst ?k, month = snd ?k,
          smax = d3_max max_temperature (records_of ?k data),
          smin = d3_min min_temperature (records_of ?k data)\<rparr> = ?k"
    by (simp add: cell_id_def)
  then have ex: "\<exists>s\<in>set (createAggregatedData data). cell_id s = ?k"
    using summary_of_cell [OF k] by blast
  have "aggVal ''max'' b = smax s \<and> aggVal ''min'' b = smin s"
    if "s \<in> set (createAggregatedData data)" "cell_id s = ?k" for s
    using summary_mem [OF that(1)] by (simp add: agg that(2))
  then show ?thesis
    using ex by blast
qed

text \<open>
  Claim C10. After initialisation and any sequence of calls, \<open>updateMatrix(field)\<close> of the
  recent-years heatmap leaves one cell per bucket of the windowed records. For every such
  cell the full data has a summary of the same (year, month), and the background of the
  cell is filled with the colour of that summary's \<open>smax\<close> when the field is max and of its
  \<open>smin\<close> when the field is min: the aggregate the heatmap computes over the cell's days
  is the field of the summary that \<open>createAggregatedData\<close> yields from the full record set.
\<close>

theorem views_agree:
  "map cell_data (cells (updateMatrix2 t (heatmap2_after data cs))) =
     createDailyData (recentYears data) \<and>
   (\<forall>c\<in>set (cells (updateMatrix2 t (heatmap2_after data cs))).
      (\<exists>s\<in>set (createAggregatedData data). cell_id s = cell_id (cell_data c)) \<and>
      (\<forall>s\<in>set (createAggregatedData data). cell_id s = cell_id (cell_data c) \<longrightarrow>
         (t = ''max'' \<longrightarrow>
            aggVal t (cell_data c) = smax s \<and>
            cell_bg_fill c = Some (YlOrRd (getGlobalTempExtent (recentYears data) t) (smax s))) \<and>
         (t = ''min'' \<longrightarrow>
            aggVal t (cell_data c) = smin s \<and>
            cell_bg_fill c = Some (YlOrRd (getGlobalTempExtent (recentYears data) t) (smin s)))))"
proof -
  let ?h = "heatmap2_after data cs"
  have "(\<exists>s\<in>set (createAggregatedData data). cell_id s = cell_id (cell_data c)) \<and>
      (\<forall>s\<in>set (createAggregatedData data). cell_id s = cell_id (cell_data c) \<longrightarrow>
         (t = ''max'' \<longrightarrow>
            aggVal t (cell_data c) = smax s \<and>
            cell_bg_fill c = Some (YlOrRd (getGlobalTempExtent (recentYears data) t) (smax s))) \<and>
         (t = ''min'' \<longrightarrow>
            aggVal t (cell_data c) = smin s \<and>
            cell_bg_fill c = Some (YlOrRd (getGlobalTempExtent (recentYears data) t) (smin s))))"
    if c: "c \<in> set (cells (updateMatrix2 t ?h))" for c
  proof -
    from cell_updateMatrix2 [OF c]
    have b: "cell_data c \<in> set (createDailyData (recentYears data))"
      and fill: "cell_bg_fill c =
        Some (YlOrRd (getGlobalTempExtent (recentYears data) t) (aggVal t (cell_data c)))"
      by (simp_all add: heatmap2_after_fields)
    from bucket_agrees [OF b]
    have ex: "\<exists>s\<in>set (createAggregatedData data). cell_id s = cell_id (cell_data c)"
      and eq: "\<And>s. s \<in> set (createAggregatedData data) \<Longrightarrow> cell_id s = cell_id (cell_data c) \<Longrightarrow>
            aggVal ''max'' (cell_data c) = smax s \<and> aggVal ''min'' (cell_data c) = smin s"
      by blast+
    show ?thesis
      using ex eq fill by auto
  qed
  moreover have "map cell_data (cells (updateMatrix2 t ?h)) = createDailyData (recentYears data)"
    by (simp add: cell_data_updateMatrix2 heatmap2_after_fields)
  ultimately show ?thesis
    by blast
qed

theorem views_agree_witness:
  "map (\<lambda>c. (cell_id (cell_data c), map getDate (map date (days (cell_data c))), cell_bg_fill c))
       (cells (updateMatrix2 ''max'' (heatmap2_after agree_rows [UpdateMatrix ''min'']))) =
     [((2020, 3), [1, 2, 3, 4], Some (YlOrRd (Num 7, Num 30) (Num 12))),
      ((2011, 7), [2], Some (YlOrRd (Num 7, Num 30) (Num 30)))] \<and>
   map (\<lambda>c. (cell_id (cell_data c), cell_bg_fill c))
       (cells (updateMatrix2 ''min'' (heatmap2_after agree_rows [UpdateMatrix ''max'']))) =
     [((2020, 3), Some (YlOrRd (Num 1, Num 18) (Num 1))),
      ((2011, 7), Some (YlOrRd (Num 1, Num 18) (Num 18)))] \<and>
   createAggregatedData agree_rows =
     [\<lparr>year = 2020, month = 3, smax = Num 12, smin = Num 1\<rparr>,
      \<lparr>year = 2009, month = 7, smax = Num 31, smin = Num 19\<rparr>,
      \<lparr>year = 2011, month = 7, smax = Num 30, smin = Num 18\<rparr>]"
proof -
  have fd: "recentYears agree_rows =
      [row 2020 3 4 8 3, row 2020 3 1 9 4, row 2020 3 3 7 1, row 2011 7 2 30 18, row 2020 3 2 12 5]"
    by (simp add: recentYears_def maxYear_def d3_max_def d3_max_step_def agree_rows_def
        row_def year_of_def)
  have pdd: "createDailyData (recentYears agree_rows) =
     [\<lparr>year = 2020, month = 3,
        days = [row 2020 3 1 9 4, row 2020 3 2 12 5, row 2020 3 3 7 1, row 2020 3 4 8 3]\<rparr>,
      \<lparr>year = 2011, month = 7, days = [row 2011 7 2 30 18]\<rparr>]"
    unfolding fd
    by (simp add: createDailyData_def flatten_rollup_def d3_rollup_def regroup_def
      row_def year_of_def month_of_def valueOf_def)
  have pd: "createAggregatedData agree_rows =
     [\<lparr>year = 2020, month = 3, smax = Num 12, smin = Num 1\<rparr>,
      \<lparr>year = 2009, month = 7, smax = Num 31, smin = Num 19\<rparr>,
      \<lparr>year = 2011, month = 7, smax = Num 30, smin = Num 18\<rparr>]"
    by (simp add: createAggregatedData_def flatten_rollup_def d3_rollup_def regroup_def
      agree_rows_def row_def year_of_def month_of_def d3_max_def d3_min_def
      d3_max_step_def d3_min_step_def)
  have ext: "getGlobalTempExtent (recentYears agree_rows) ''max'' = (Num 7, Num 30)"
    "getGlobalTempExtent (recentYears agree_rows) ''min'' = (Num 1, Num 18)"
    unfolding fd
    by (simp_all add: getGlobalTempExtent_eq column_def row_def
        d3_max_def d3_min_def d3_max_step_def d3_min_step_def)
  have zip3: "map (\<lambda>c. (cell_id (cell_data c), map getDate (map date (days (cell_data c))), cell_bg_fill c)) ns =
      zip (map (\<lambda>b. cell_id b) (map cell_data ns))
        (zip (map (\<lambda>b. map getDate (map date (days b))) (map cell_data ns)) (map cell_bg_fill ns))"
    for ns :: "cell list"
    by (induction ns) simp_all
  have zip2: "map (\<lambda>c. (cell_id (cell_data c), cell_bg_fill c)) ns =
      zip (map (\<lambda>b. cell_id b) (map cell_data ns)) (map cell_bg_fill ns)"
    for ns :: "cell list"
    by (induction ns) simp_all
  have one: "map (\<lambda>c. (cell_id (cell_data c), map getDate (map date (days (cell_data c))), cell_bg_fill c))
       (cells (updateMatrix2 ''max'' (heatmap2_after agree_rows [UpdateMatrix ''min'']))) =
     [((2020, 3), [1, 2, 3, 4], Some (YlOrRd (Num 7, Num 30) (Num 12))),
      ((2011, 7), [2], Some (YlOrRd (Num 7, Num 30) (Num 30)))]"
    unfolding zip3 cell_data_updateMatrix2 fills_updateMatrix2 heatmap2_after_fields ext pdd
    by (simp add: cell_id_def aggVal_def row_def d3_max_def d3_max_step_def)
  have two: "map (\<lambda>c. (cell_id (cell_data c), cell_bg_fill c))
       (cells (updateMatrix2 ''min'' (heatmap2_after agree_rows [UpdateMatrix ''max'']))) =
     [((2020, 3), Some (YlOrRd (Num 1, Num 18) (Num 1))),
      ((2011, 7), Some (YlOrRd (Num 1, Num 18) (Num 18)))]"
    unfolding zip2 cell_data_updateMatrix2 fills_updateMatrix2 heatmap2_after_fields ext pdd
    by (simp add: cell_id_def aggVal_def row_def d3_min_def d3_min_step_def)
  show ?thesis
    using views_agree [of "''max''" agree_rows "[UpdateMatrix ''min'']"]
      views_agree [of "''min''" agree_rows "[UpdateMatrix ''max'']"]
    by (simp only: one two pd simp_thms)
qed

end
